theory Spec2Isabelle
  imports Main
begin

section \<open>Python values shared by the modules\<close>

text \<open>
  Exceptions are values. Every \<^verbatim>\<open>raise\<close> of the modelled functions, and every
  exception a collaborator hands back, is one of these constructors; the argument is
  the message (\<^verbatim>\<open>str(e)\<close>).
\<close>

datatype py_error =
    KeyError string
  | TypeError string
  | UnboundLocalError string
  | ValidationError string
  | ModelValidationError string
  | OtherError string

fun str_error :: "py_error \<Rightarrow> string" where
  "str_error (KeyError m) = m"
| "str_error (TypeError m) = m"
| "str_error (UnboundLocalError m) = m"
| "str_error (ValidationError m) = m"
| "str_error (ModelValidationError m) = m"
| "str_error (OtherError m) = m"

text \<open>
  A Python \<^verbatim>\<open>str\<close> that may also be \<^verbatim>\<open>None\<close> is a \<open>string option\<close>; its truth value
  is that of Python: \<^verbatim>\<open>None\<close> and \<^verbatim>\<open>""\<close> are false.
\<close>

fun truthy_str :: "string option \<Rightarrow> bool" where
  "truthy_str None = False"
| "truthy_str (Some s) = (s \<noteq> [])"

text \<open>A \<^verbatim>\<open>dict\<close> with string keys is an association list read with \<open>map_of\<close>.\<close>

type_synonym 'v pydict = "(string \<times> 'v) list"

section \<open>Users, role assignments and gardens (\<^verbatim>\<open>beer_garden/user.py\<close>)\<close>

record role_domain =
  scope :: string
  identifiers :: "string pydict"

record role_assignment =
  role :: string
  domain :: role_domain

record user =
  username :: string
  password :: "string option"
  role_assignments :: "role_assignment list"

record garden =
  name :: string
  connection_type :: "string option"
  namespaces :: "string list"

text \<open>
  \<^verbatim>\<open>d.get(k) in namespaces\<close>: \<^verbatim>\<open>get\<close> gives \<^verbatim>\<open>None\<close> for a missing key, and
  \<^verbatim>\<open>None\<close> is not a member of a list of strings.
\<close>

definition get_in :: "string pydict \<Rightarrow> string \<Rightarrow> string list \<Rightarrow> bool" where
  "get_in d k ns = (case map_of d k of None \<Rightarrow> False | Some v \<Rightarrow> v \<in> set ns)"

text \<open>The condition of the list comprehension in \<^verbatim>\<open>_filter_role_assigments_by_garden\<close>.\<close>

definition assignment_applies :: "string list \<Rightarrow> role_assignment \<Rightarrow> bool" where
  "assignment_applies ns assignment =
     (scope (domain assignment) = ''Global''
      \<or> (scope (domain assignment) = ''Garden''
           \<and> get_in (identifiers (domain assignment)) ''name'' ns)
      \<or> (scope (domain assignment) = ''System''
           \<and> get_in (identifiers (domain assignment)) ''namespace'' ns))"

subsection \<open>Objects in memory\<close>

text \<open>
  \<^verbatim>\<open>User\<close> objects are mutable and passed by reference. The heap is the list of the
  objects allocated so far and a reference is an index into it. \<^verbatim>\<open>copy(user)\<close>
  allocates a new object whose attributes hold the same values; assigning an attribute
  replaces the value stored in one object.
\<close>

type_synonym ref = nat
type_synonym heap = "user list"

definition copy :: "heap \<Rightarrow> ref \<Rightarrow> ref \<times> heap" where
  "copy h r = (length h, h @ [h ! r])"

definition set_role_assignments :: "heap \<Rightarrow> ref \<Rightarrow> role_assignment list \<Rightarrow> heap" where
  "set_role_assignments h r ras = h[r := (h ! r)\<lparr>role_assignments := ras\<rparr>]"

definition filter_role_assigments_by_garden :: "heap \<Rightarrow> ref \<Rightarrow> garden \<Rightarrow> ref \<times> heap" where
  "filter_role_assigments_by_garden h usr gdn =
     (let ns = namespaces gdn;
          (filtered_user, h1) = copy h usr;
          h2 = set_role_assignments h1 filtered_user
                 (filter (assignment_applies ns) (role_assignments (h1 ! filtered_user)))
      in (filtered_user, h2))"

text \<open>
  The list comprehension \<^verbatim>\<open>[_filter_role_assigments_by_garden(user, garden) for user in users]\<close>
  of \<^verbatim>\<open>initiate_user_sync\<close>, threading the heap through the calls.
\<close>

fun filter_users :: "heap \<Rightarrow> ref list \<Rightarrow> garden \<Rightarrow> ref list \<times> heap" where
  "filter_users h [] gdn = ([], h)"
| "filter_users h (u # us) gdn =
     (let (f, h1) = filter_role_assigments_by_garden h u gdn;
          (fs, h2) = filter_users h1 us gdn
      in (f # fs, h2))"

text \<open>
  The outer loop of \<^verbatim>\<open>initiate_user_sync\<close> over the gardens: for each garden the
  filtered users are serialized (here: read from the heap) and become the payload of
  one \<^verbatim>\<open>USER_SYNC\<close> operation for that garden.
\<close>

fun sync_payloads :: "heap \<Rightarrow> ref list \<Rightarrow> garden list \<Rightarrow> (string \<times> user list) list \<times> heap" where
  "sync_payloads h users [] = ([], h)"
| "sync_payloads h users (gdn # gardens) =
     (let (filtered_users, h1) = filter_users h users gdn;
          serialized_users = map (\<lambda>r. h1 ! r) filtered_users;
          (rest, h2) = sync_payloads h1 users gardens
      in ((name gdn, serialized_users) # rest, h2))"

subsection \<open>The document store and the import\<close>

text \<open>
  The collections the module reads and writes, and what it emits. \<^verbatim>\<open>User\<close>
  documents are keyed by \<open>username\<close>: \<^verbatim>\<open>User.objects.get(username=...)\<close> is
  \<open>find\<close>, and \<^verbatim>\<open>save()\<close> replaces the stored document of that username or
  appends a new one.
\<close>

record remote_user =
  ru_garden :: string
  ru_username :: string
  ru_role_assignments :: "role_assignment list"

datatype kwarg = KStr string | KInt int | KUsers "user list"

record operation =
  operation_type :: string
  target_garden_name :: "string option"
  kwargs :: "kwarg pydict"

record db =
  db_users :: "user list"
  db_remote_users :: "remote_user list"
  db_gardens :: "garden list"
  db_published :: "user list"
  db_logged :: "string list"
  db_routed :: "operation list"
  db_set_password_calls :: nat

fun save :: "user \<Rightarrow> user list \<Rightarrow> user list" where
  "save u [] = [u]"
| "save u (x # xs) = (if username x = username u then u # xs else x # save u xs)"

definition objects_get :: "user list \<Rightarrow> string \<Rightarrow> user option" where
  "objects_get us n = find (\<lambda>x. username x = n) us"

text \<open>
  The dictionary \<^verbatim>\<open>UserPatchSchema(strict=True).load(serialized_user).data\<close>: each
  key may be absent. A serialized user is its \<^verbatim>\<open>"username"\<close> entry (absent:
  \<open>None\<close>) together with what the schema, which is not part of these sources, makes
  of the dictionary: a \<^verbatim>\<open>ValidationError\<close> with its message, or the loaded data.
\<close>

record patch_data =
  pd_password :: "string option"
  pd_hashed_password :: "string option"
  pd_role_assignments :: "role_assignment list option"

record serialized_user =
  su_username :: "string option"
  su_loaded :: "string + patch_data"

text \<open>
  \<^verbatim>\<open>_publish_user_updated\<close>: the serialized user goes out in a \<^verbatim>\<open>USER_UPDATED\<close>
  event.
\<close>

definition publish_user_updated :: "db \<Rightarrow> user \<Rightarrow> db" where
  "publish_user_updated d usr = d\<lparr>db_published := db_published d @ [usr]\<rparr>"

text \<open>
  \<^verbatim>\<open>update_user(user, **updated_user_data)\<close>. The key \<^verbatim>\<open>hashed_password\<close> of the
  data binds the parameter of that name, the other keys are \<^verbatim>\<open>kwargs\<close>.
  \<^verbatim>\<open>User.set_password\<close> is not part of these sources, and what it stores need not be
  a function of the plain password alone (a salted hash is not): \<open>set_pw k v\<close> is the
  value its call stores for the plain password \<open>v\<close> when \<open>k\<close> calls have been made
  before, and the store counts the calls.
\<close>

definition update_user :: "(nat \<Rightarrow> string \<Rightarrow> string) \<Rightarrow> db \<Rightarrow> user \<Rightarrow> patch_data \<Rightarrow> user \<times> db" where
  "update_user set_pw d usr dat =
     (let hashed_password = pd_hashed_password dat;
          u1 = (case pd_password dat of
                  None \<Rightarrow> usr
                | Some v \<Rightarrow> if hashed_password = None
                            then usr\<lparr>password := Some (set_pw (db_set_password_calls d) v)\<rparr>
                            else usr\<lparr>password := Some v\<rparr>);
          calls = (case pd_password dat of
                     None \<Rightarrow> db_set_password_calls d
                   | Some v \<Rightarrow> if hashed_password = None
                               then Suc (db_set_password_calls d)
                               else db_set_password_calls d);
          u2 = (case pd_role_assignments dat of
                  None \<Rightarrow> u1
                | Some v \<Rightarrow> u1\<lparr>role_assignments := v\<rparr>);
          u3 = (if truthy_str hashed_password then u2\<lparr>password := hashed_password\<rparr> else u2);
          d1 = d\<lparr>db_users := save u3 (db_users d), db_set_password_calls := calls\<rparr>;
          d2 = publish_user_updated d1 u3
      in (u3, d2))"

text \<open>
  One iteration of the loop of \<^verbatim>\<open>_import_users\<close>. \<open>Inl\<close> is an exception that
  leaves the loop (only \<^verbatim>\<open>ValidationError\<close> is caught); it is raised before the
  iteration has written anything.
\<close>

definition import_user :: "(nat \<Rightarrow> string \<Rightarrow> string) \<Rightarrow> db \<Rightarrow> serialized_user \<Rightarrow> py_error + db" where
  "import_user set_pw d su =
     (case su_username su of
        None \<Rightarrow> Inl (KeyError ''username'')
      | Some uname \<Rightarrow>
          (case su_loaded su of
             Inl exc \<Rightarrow>
               Inr (d\<lparr>db_logged := db_logged d
                      @ [''Failed to import user '' @ uname @ '' due to error: '' @ exc]\<rparr>)
           | Inr updated_user_data \<Rightarrow>
               (case objects_get (db_users d) uname of
                  Some usr \<Rightarrow> Inr (snd (update_user set_pw d usr updated_user_data))
                | None \<Rightarrow>
                    (case pd_role_assignments updated_user_data of
                       None \<Rightarrow> Inl (KeyError ''role_assignments'')
                     | Some ras \<Rightarrow>
                         if length ras > 0
                         then (let usr = \<lparr>username = uname, password = None, role_assignments = []\<rparr>;
                                   d1 = d\<lparr>db_users := save usr (db_users d)\<rparr>
                               in Inr (snd (update_user set_pw d1 usr updated_user_data)))
                         else Inr d))))"

fun import_users :: "(nat \<Rightarrow> string \<Rightarrow> string) \<Rightarrow> db \<Rightarrow> serialized_user list \<Rightarrow> py_error option \<times> db" where
  "import_users set_pw d [] = (None, d)"
| "import_users set_pw d (su # rest) =
     (case import_user set_pw d su of
        Inl e \<Rightarrow> (Some e, d)
      | Inr d1 \<Rightarrow> import_users set_pw d1 rest)"

text \<open>
  \<^verbatim>\<open>initiate_user_sync\<close>. \<^verbatim>\<open>route\<close> belongs to the router, which is not part of
  these sources: \<open>route\<close> tells whether it raises for an operation. The payloads are
  those of \<open>sync_payloads\<close> over the freshly loaded users; the operations are routed in
  the order of the gardens until one raises.
\<close>

fun route_all :: "(operation \<Rightarrow> py_error option) \<Rightarrow> db \<Rightarrow> operation list \<Rightarrow> py_error option \<times> db" where
  "route_all route d [] = (None, d)"
| "route_all route d (opn # ops) =
     (case route opn of
        Some e \<Rightarrow> (Some e, d)
      | None \<Rightarrow> route_all route (d\<lparr>db_routed := db_routed d @ [opn]\<rparr>) ops)"

definition initiate_user_sync :: "(operation \<Rightarrow> py_error option) \<Rightarrow> db \<Rightarrow> py_error option \<times> db" where
  "initiate_user_sync route d =
     (let usrs = db_users d;
          gdns = filter (\<lambda>g. connection_type g \<noteq> Some ''LOCAL'' \<and> connection_type g \<noteq> None)
                   (db_gardens d);
          payloads = fst (sync_payloads usrs [0 ..< length usrs] gdns)
      in route_all route d
           (map (\<lambda>(gname, serialized_users).
                   \<lparr>operation_type = ''USER_SYNC'', target_garden_name = Some gname,
                    kwargs = [(''serialized_users'', KUsers serialized_users)]\<rparr>)
              payloads))"

definition user_sync ::
  "(nat \<Rightarrow> string \<Rightarrow> string) \<Rightarrow> (operation \<Rightarrow> py_error option) \<Rightarrow> db \<Rightarrow> serialized_user list
     \<Rightarrow> py_error option \<times> db" where
  "user_sync set_pw route d serialized_users =
     (case import_users set_pw d serialized_users of
        (Some e, d1) \<Rightarrow> (Some e, d1)
      | (None, d1) \<Rightarrow> initiate_user_sync route d1)"

section \<open>The STOMP entry point (\<^verbatim>\<open>beer_garden/api/stomp/server.py\<close>)\<close>

subsection \<open>The broker connection of the \<^verbatim>\<open>stomp\<close> library\<close>

text \<open>
  A frame handed to \<^verbatim>\<open>conn.send(body=..., headers=..., destination=...)\<close>, and the
  calls a \<^verbatim>\<open>stomp.Connection\<close> has received, in order. The library is not part of
  these sources; what the module relies on is modelled: \<^verbatim>\<open>is_connected()\<close> reads a
  flag, \<^verbatim>\<open>connect\<close> sets it when the broker accepts and raises otherwise,
  \<^verbatim>\<open>send\<close> and \<^verbatim>\<open>subscribe\<close> raise on a connection that is not connected.
  On a connected connection \<^verbatim>\<open>send\<close> may still raise (the socket may fail):
  \<open>raises f\<close> is the exception it ends with for the frame \<open>f\<close>, if any. The call is
  recorded in both cases.
\<close>

type_synonym headers = "string pydict"

record frame =
  body :: string
  frame_headers :: headers
  destination :: string

datatype stomp_call =
    Connect "string option" "string option"
  | Subscribe string "string option"
  | Send frame
  | Disconnect

record stomp_conn =
  connected :: bool
  calls :: "stomp_call list"

definition is_connected :: "stomp_conn \<Rightarrow> bool" where
  "is_connected c = connected c"

definition conn_send ::
  "(frame \<Rightarrow> py_error option) \<Rightarrow> stomp_conn \<Rightarrow> frame \<Rightarrow> py_error option \<times> stomp_conn" where
  "conn_send raises c f =
     (if connected c then (raises f, c\<lparr>calls := calls c @ [Send f]\<rparr>)
      else (Some (OtherError ''NotConnectedException''), c))"

definition conn_subscribe :: "stomp_conn \<Rightarrow> string \<Rightarrow> string option \<Rightarrow> py_error option \<times> stomp_conn" where
  "conn_subscribe c dest ident =
     (if connected c then (None, c\<lparr>calls := calls c @ [Subscribe dest ident]\<rparr>)
      else (Some (OtherError ''NotConnectedException''), c))"

definition conn_connect ::
  "bool \<Rightarrow> stomp_conn \<Rightarrow> string option \<Rightarrow> string option \<Rightarrow> py_error option \<times> stomp_conn" where
  "conn_connect broker_accepts c usr passcode =
     (if broker_accepts
      then (None, c\<lparr>connected := True, calls := calls c @ [Connect usr passcode]\<rparr>)
      else (Some (OtherError ''ConnectFailedException''),
            c\<lparr>calls := calls c @ [Connect usr passcode]\<rparr>))"

subsection \<open>Results of routing\<close>

text \<open>
  What \<^verbatim>\<open>beer_garden.router.route\<close> may hand back, as far as \<^verbatim>\<open>if result:\<close> can
  tell the values apart: \<^verbatim>\<open>None\<close>, a boolean, a string, a list, or a model object.
\<close>

datatype py_result =
    PyNone
  | PyBool bool
  | PyStr string
  | PyList "string list"
  | PyObject string

fun truthy :: "py_result \<Rightarrow> bool" where
  "truthy PyNone = False"
| "truthy (PyBool b) = b"
| "truthy (PyStr s) = (s \<noteq> [])"
| "truthy (PyList xs) = (xs \<noteq> [])"
| "truthy (PyObject x) = True"

text \<open>
  The collaborators of the listener that are not part of these sources:
  \<^verbatim>\<open>SchemaParser.parse_operation(message, from_string=True)\<close>,
  \<^verbatim>\<open>beer_garden.router.route\<close>, and \<^verbatim>\<open>process_send_message\<close> and
  \<^verbatim>\<open>append_headers\<close> of \<^verbatim>\<open>beer_garden.api.stomp.processors\<close>. The first three
  may raise. \<open>env_send_raises\<close> is what \<^verbatim>\<open>conn.send\<close> of the library raises for a
  frame on a connected connection, if anything.
\<close>

record env =
  env_parse_operation :: "string \<Rightarrow> py_error + operation"
  env_route :: "operation \<Rightarrow> py_error + py_result"
  env_process_send_message :: "py_result \<Rightarrow> py_error + (string \<times> headers)"
  env_append_headers :: "headers \<Rightarrow> headers option \<Rightarrow> headers option \<Rightarrow> headers"
  env_send_raises :: "frame \<Rightarrow> py_error option"

text \<open>\<^verbatim>\<open>request_headers or {}\<close>.\<close>

fun or_empty :: "headers option \<Rightarrow> headers" where
  "or_empty None = []"
| "or_empty (Some h) = h"

subsection \<open>\<^verbatim>\<open>send_message\<close> and \<^verbatim>\<open>send_error_msg\<close>\<close>

definition send_message ::
  "env \<Rightarrow> py_result \<Rightarrow> headers option \<Rightarrow> stomp_conn \<Rightarrow> string option \<Rightarrow> headers option
     \<Rightarrow> py_error option \<times> stomp_conn" where
  "send_message e message garden_headers conn send_dest request_headers =
     (case env_process_send_message e message of
        Inl exc \<Rightarrow> (Some exc, conn)
      | Inr (msg, response_headers0) \<Rightarrow>
          (let response_headers =
                 env_append_headers e response_headers0 request_headers garden_headers
           in if is_connected conn \<and> truthy_str send_dest
              then (case map_of (or_empty request_headers) ''reply-to'' of
                      Some reply_to \<Rightarrow>
                        conn_send (env_send_raises e) conn
                          \<lparr>body = msg, frame_headers = response_headers, destination = reply_to\<rparr>
                    | None \<Rightarrow>
                        (case send_dest of
                           Some dest \<Rightarrow>
                             conn_send (env_send_raises e) conn
                               \<lparr>body = msg, frame_headers = response_headers, destination = dest\<rparr>
                         | None \<Rightarrow> (None, conn)))
              else (None, conn)))"

text \<open>
  In \<^verbatim>\<open>send_error_msg\<close> the test \<^verbatim>\<open>"reply-to" in request_headers\<close> is made on the
  argument itself: for \<^verbatim>\<open>None\<close> it raises \<^verbatim>\<open>TypeError\<close>.
\<close>

definition send_error_msg ::
  "env \<Rightarrow> string \<Rightarrow> headers option \<Rightarrow> stomp_conn \<Rightarrow> string option \<Rightarrow> headers option
     \<Rightarrow> py_error option \<times> stomp_conn" where
  "send_error_msg e error_msg request_headers conn send_dest garden_headers =
     (let error_headers =
            env_append_headers e [(''model_class'', ''error_message'')]
              (Some (or_empty request_headers)) (Some (or_empty garden_headers))
      in if is_connected conn
         then (case request_headers of
                 None \<Rightarrow> (Some (TypeError ''argument of type NoneType is not iterable''), conn)
               | Some rh \<Rightarrow>
                   (case map_of rh ''reply-to'' of
                      Some reply_to \<Rightarrow>
                        conn_send (env_send_raises e) conn
                          \<lparr>body = error_msg, frame_headers = error_headers, destination = reply_to\<rparr>
                    | None \<Rightarrow>
                        if truthy_str send_dest
                        then (case send_dest of
                                Some dest \<Rightarrow>
                                  conn_send (env_send_raises e) conn
                                    \<lparr>body = error_msg, frame_headers = error_headers,
                                     destination = dest\<rparr>
                              | None \<Rightarrow> (None, conn))
                        else (None, conn)))
         else (None, conn))"

subsection \<open>\<^verbatim>\<open>OperationListener\<close>\<close>

record listener =
  l_conn :: stomp_conn
  l_send_destination :: "string option"
  l_warnings :: "string list"

text \<open>
  \<^verbatim>\<open>operation.kwargs.pop("wait_timeout", None)\<close>. A parsed operation always has its
  \<^verbatim>\<open>kwargs\<close> dictionary here, so the test \<^verbatim>\<open>hasattr(operation, "kwargs")\<close> is true.
\<close>

definition pop_wait_timeout :: "operation \<Rightarrow> operation" where
  "pop_wait_timeout opn = opn\<lparr>kwargs := filter (\<lambda>kv. fst kv \<noteq> ''wait_timeout'') (kwargs opn)\<rparr>"

text \<open>
  The body of the \<^verbatim>\<open>try\<close> block of \<^verbatim>\<open>on_message\<close>: the exception it ends with, if
  any, and the connection as it is then.
\<close>

definition on_message_try :: "env \<Rightarrow> listener \<Rightarrow> headers \<Rightarrow> string \<Rightarrow> py_error option \<times> stomp_conn" where
  "on_message_try e self hdrs message =
     (case env_parse_operation e message of
        Inl exc \<Rightarrow> (Some exc, l_conn self)
      | Inr operation0 \<Rightarrow>
          (let opn = pop_wait_timeout operation0
           in case env_route e opn of
                Inl exc \<Rightarrow> (Some exc, l_conn self)
              | Inr result \<Rightarrow>
                  if truthy result
                  then send_message e result None (l_conn self) (l_send_destination self) (Some hdrs)
                  else (None, l_conn self)))"

text \<open>
  \<^verbatim>\<open>on_message\<close>. \<^verbatim>\<open>except Exception\<close> takes every exception of the block. An
  exception raised by \<^verbatim>\<open>send_error_msg\<close> inside the handler would leave
  \<^verbatim>\<open>on_message\<close>, before the warning is logged.
\<close>

definition on_message :: "env \<Rightarrow> listener \<Rightarrow> headers \<Rightarrow> string \<Rightarrow> py_error option \<times> listener" where
  "on_message e self hdrs message =
     (case on_message_try e self hdrs message of
        (None, c) \<Rightarrow> (None, self\<lparr>l_conn := c\<rparr>)
      | (Some exc, c) \<Rightarrow>
          (case send_error_msg e (str_error exc) (Some hdrs) c (l_send_destination self) None of
             (Some exc2, c2) \<Rightarrow> (Some exc2, self\<lparr>l_conn := c2\<rparr>)
           | (None, c2) \<Rightarrow>
               (None, self\<lparr>l_conn := c2, l_warnings := l_warnings self @ [str_error exc]\<rparr>)))"

subsection \<open>\<^verbatim>\<open>Connection\<close>\<close>

text \<open>
  The wrapper object. Hosts and ports come from the configuration and may be
  \<^verbatim>\<open>None\<close>; a port is true when it is not \<^verbatim>\<open>None\<close> and not \<open>0\<close>.
\<close>

record connection =
  host_and_ports :: "(string option \<times> int option) list option"
  c_username :: "string option"
  c_password :: "string option"
  subscribe_destination :: "string option"
  send_destination :: "string option"
  bg_active :: bool
  c_conn :: stomp_conn
  c_logged :: "string list"

fun truthy_int :: "int option \<Rightarrow> bool" where
  "truthy_int None = False"
| "truthy_int (Some i) = (i \<noteq> 0)"

fun truthy_list :: "'a list option \<Rightarrow> bool" where
  "truthy_list None = False"
| "truthy_list (Some xs) = (xs \<noteq> [])"

text \<open>
  The \<^verbatim>\<open>try\<close> block of \<^verbatim>\<open>connect\<close>: connect, subscribe, log. \<open>broker_accepts\<close>
  tells whether the broker takes the connection.
\<close>

definition connect_try ::
  "bool \<Rightarrow> connection \<Rightarrow> string option \<Rightarrow> py_error option \<times> connection" where
  "connect_try broker_accepts self connected_message =
     (case conn_connect broker_accepts (c_conn self) (c_username self) (c_password self) of
        (Some exc, c) \<Rightarrow> (Some exc, self\<lparr>c_conn := c\<rparr>)
      | (None, c) \<Rightarrow>
          (case (if truthy_str (subscribe_destination self)
                 then (case subscribe_destination self of
                         Some dest \<Rightarrow> conn_subscribe c dest (c_username self)
                       | None \<Rightarrow> (None, c))
                 else (None, c)) of
             (Some exc, c1) \<Rightarrow> (Some exc, self\<lparr>c_conn := c1\<rparr>)
           | (None, c1) \<Rightarrow>
               (case connected_message of
                  Some m \<Rightarrow>
                    if is_connected c1
                    then (None, self\<lparr>c_conn := c1,
                                     c_logged := c_logged self @ [''Stomp successfully '' @ m]\<rparr>)
                    else (None, self\<lparr>c_conn := c1\<rparr>)
                | None \<Rightarrow> (None, self\<lparr>c_conn := c1\<rparr>))))"

text \<open>
  \<^verbatim>\<open>connect\<close>. The handler of the \<^verbatim>\<open>try\<close> block iterates over \<^verbatim>\<open>gardens\<close>
  to build its message: with the default \<^verbatim>\<open>None\<close> that raises \<^verbatim>\<open>TypeError\<close>
  out of \<^verbatim>\<open>connect\<close>.
\<close>

definition connect ::
  "bool \<Rightarrow> connection \<Rightarrow> string option \<Rightarrow> string list option \<Rightarrow> py_error option \<times> connection" where
  "connect broker_accepts self connected_message gardens =
     (if truthy_list (host_and_ports self)
      then (case host_and_ports self of
              Some ((host, port) # others) \<Rightarrow>
                if truthy_str host \<and> truthy_int port \<and> truthy_str (subscribe_destination self)
                then (case connect_try broker_accepts self connected_message of
                        (None, self1) \<Rightarrow> (None, self1)
                      | (Some exc, self1) \<Rightarrow>
                          (case gardens of
                             None \<Rightarrow> (Some (TypeError ''NoneType object is not iterable''), self1)
                           | Some names \<Rightarrow>
                               (None, self1\<lparr>c_logged := c_logged self1
                                  @ [''Error connecting'', ''Waiting before next attempt'']\<rparr>)))
                else (None, self)
            | _ \<Rightarrow> (None, self))
      else (None, self))"

text \<open>\<^verbatim>\<open>send_event\<close>: a message without request headers, to the default destination.\<close>

definition send_event ::
  "env \<Rightarrow> connection \<Rightarrow> py_result \<Rightarrow> headers option \<Rightarrow> py_error option \<times> connection" where
  "send_event e self event hdrs =
     (case send_message e event hdrs (c_conn self) (send_destination self) None of
        (err, c) \<Rightarrow> (err, self\<lparr>c_conn := c\<rparr>))"

section \<open>The job handler (\<^verbatim>\<open>brew_view/handlers/v1/job.py\<close>)\<close>

text \<open>
  A patch operation as the parser hands it over. The value comes from the JSON body and
  need not be a string; \<^verbatim>\<open>str(op.value)\<close> prints it.
\<close>

datatype patch_value = VNone | VBool bool | VInt int | VStr string

record patch_operation =
  po_operation :: string
  po_path :: string
  po_value :: patch_value

function str_nat :: "nat \<Rightarrow> string" where
  "str_nat n =
     (if n < 10 then [''0123456789'' ! n]
      else str_nat (n div 10) @ [''0123456789'' ! (n mod 10)])"
  by pat_completeness auto
termination
  by (relation "measure id") auto

declare str_nat.simps [simp del]

fun py_str :: "patch_value \<Rightarrow> string" where
  "py_str VNone = ''None''"
| "py_str (VBool b) = (if b then ''True'' else ''False'')"
| "py_str (VInt i) = (if i < 0 then CHR ''-'' # str_nat (nat (- i)) else str_nat (nat i))"
| "py_str (VStr s) = s"

text \<open>
  \<^verbatim>\<open>str.upper()\<close>. Strings are lists of 8-bit characters here: the letters \<open>a\<close> to
  \<open>z\<close> become \<open>A\<close> to \<open>Z\<close> and every other character stays.
\<close>

definition upper_char :: "char \<Rightarrow> char" where
  "upper_char c =
     (case map_of (zip ''abcdefghijklmnopqrstuvwxyz'' ''ABCDEFGHIJKLMNOPQRSTUVWXYZ'') c of
        Some u \<Rightarrow> u
      | None \<Rightarrow> c)"

definition upper :: "string \<Rightarrow> string" where
  "upper s = map upper_char s"

text \<open>
  The collaborators: the parser of the request body and the scheduler backend behind
  \<^verbatim>\<open>thrift_context()\<close>. Each may raise; a backend call that returns gives the
  response. The calls the backend has received are recorded in order, and what a call does
  may depend on the calls the backend has received before it (its first argument).
\<close>

datatype backend_call = PauseJob string | ResumeJob string

record handler_env =
  env_parse_patch :: "string \<Rightarrow> py_error + patch_operation list"
  client_pauseJob :: "backend_call list \<Rightarrow> string \<Rightarrow> py_error + string"
  client_resumeJob :: "backend_call list \<Rightarrow> string \<Rightarrow> py_error + string"

definition quoted :: "string \<Rightarrow> string" where
  "quoted s = CHR 0x27 # s @ [CHR 0x27]"

text \<open>
  The loop of \<^verbatim>\<open>JobAPI.patch\<close>. \<open>cs\<close> are the backend calls made so far and
  \<open>response\<close> is the local variable of that name, unbound (\<open>None\<close>) until the first
  call has returned.
\<close>

fun patch_loop ::
  "handler_env \<Rightarrow> string \<Rightarrow> backend_call list \<Rightarrow> string option \<Rightarrow> patch_operation list
     \<Rightarrow> backend_call list \<times> (py_error + string option)" where
  "patch_loop h job_id cs response [] = (cs, Inr response)"
| "patch_loop h job_id cs response (opn # ops) =
     (if po_operation opn = ''update''
      then if po_path opn = ''/status''
           then if upper (py_str (po_value opn)) = ''PAUSED''
                then (case client_pauseJob h cs job_id of
                        Inl exc \<Rightarrow> (cs @ [PauseJob job_id], Inl exc)
                      | Inr r \<Rightarrow> patch_loop h job_id (cs @ [PauseJob job_id]) (Some r) ops)
                else if upper (py_str (po_value opn)) = ''RUNNING''
                then (case client_resumeJob h cs job_id of
                        Inl exc \<Rightarrow> (cs @ [ResumeJob job_id], Inl exc)
                      | Inr r \<Rightarrow> patch_loop h job_id (cs @ [ResumeJob job_id]) (Some r) ops)
                else (cs, Inl (ModelValidationError
                                 (''Unsupported status value '' @ quoted (py_str (po_value opn)))))
           else (cs, Inl (ModelValidationError (''Unsupported path value '' @ quoted (po_path opn))))
      else (cs, Inl (ModelValidationError (''Unsupported operation '' @ quoted (po_operation opn)))))"

text \<open>
  \<^verbatim>\<open>JobAPI.patch\<close>: the backend calls made, and the exception raised or the
  response written. After the loop \<^verbatim>\<open>self.write(response)\<close> reads the variable; if
  no iteration has bound it, that raises \<^verbatim>\<open>UnboundLocalError\<close>.
\<close>

definition patch :: "handler_env \<Rightarrow> string \<Rightarrow> string \<Rightarrow> backend_call list \<times> (py_error + string)" where
  "patch h job_id decoded_body =
     (case env_parse_patch h decoded_body of
        Inl exc \<Rightarrow> ([], Inl exc)
      | Inr operations \<Rightarrow>
          (case patch_loop h job_id [] None operations of
             (cs, Inl exc) \<Rightarrow> (cs, Inl exc)
           | (cs, Inr None) \<Rightarrow>
               (cs, Inl (UnboundLocalError
                           ''local variable response referenced before assignment''))
           | (cs, Inr (Some response)) \<Rightarrow> (cs, Inr response)))"

section \<open>Auxiliary notions for the statements\<close>

text \<open>What the filter stores in the copy, as a function of the original object.\<close>

definition filtered_copy :: "garden \<Rightarrow> user \<Rightarrow> user" where
  "filtered_copy g usr =
     usr\<lparr>role_assignments := filter (assignment_applies (namespaces g)) (role_assignments usr)\<rparr>"

text \<open>
  The object \<^verbatim>\<open>update_user\<close> returns; of the store it is saved to, it depends on
  the number of earlier calls of \<^verbatim>\<open>set_password\<close> only.
\<close>

definition updated :: "(nat \<Rightarrow> string \<Rightarrow> string) \<Rightarrow> nat \<Rightarrow> user \<Rightarrow> patch_data \<Rightarrow> user" where
  "updated set_pw k usr dat =
     fst (update_user set_pw
            \<lparr>db_users = [], db_remote_users = [], db_gardens = [], db_published = [],
             db_logged = [], db_routed = [], db_set_password_calls = k\<rparr> usr dat)"

text \<open>
  A serialized user is steady when importing it never has \<^verbatim>\<open>set_password\<close> store two
  different values: the schema rejects it, or its data has no \<^verbatim>\<open>password\<close> key, or it
  has a \<^verbatim>\<open>hashed_password\<close> key, or every call of \<^verbatim>\<open>set_password\<close> stores the
  same value for its plain password.
\<close>

definition steady :: "(nat \<Rightarrow> string \<Rightarrow> string) \<Rightarrow> serialized_user \<Rightarrow> bool" where
  "steady set_pw su =
     (case su_loaded su of
        Inl exc \<Rightarrow> True
      | Inr dat \<Rightarrow>
         (case pd_password dat of
            None \<Rightarrow> True
          | Some v \<Rightarrow> pd_hashed_password dat \<noteq> None \<or> (\<forall>j k. set_pw j v = set_pw k v)))"

text \<open>
  A serialized user is settled in a \<^verbatim>\<open>User\<close> collection when importing it again
  leaves the collection as it is.
\<close>

definition settled :: "(nat \<Rightarrow> string \<Rightarrow> string) \<Rightarrow> user list \<Rightarrow> serialized_user \<Rightarrow> bool" where
  "settled set_pw us su =
     (case su_username su of
        None \<Rightarrow> False
      | Some n \<Rightarrow>
         (case su_loaded su of
            Inl exc \<Rightarrow> True
          | Inr dat \<Rightarrow>
             (case objects_get us n of
                Some usr \<Rightarrow> updated set_pw 0 usr dat = usr
              | None \<Rightarrow> pd_role_assignments dat = Some [])))"




text \<open>The condition under which \<^verbatim>\<open>connect\<close> reaches its \<^verbatim>\<open>try\<close> block.\<close>

definition attempts :: "connection \<Rightarrow> bool" where
  "attempts self =
     (case host_and_ports self of
        Some ((host, port) # others) \<Rightarrow>
          truthy_str host \<and> truthy_int port \<and> truthy_str (subscribe_destination self)
      | _ \<Rightarrow> False)"

text \<open>The calls an attempt adds to the connection.\<close>

definition attempt_calls :: "bool \<Rightarrow> connection \<Rightarrow> stomp_call list" where
  "attempt_calls broker_accepts self =
     Connect (c_username self) (c_password self)
       # (if broker_accepts
          then (case subscribe_destination self of
                  Some dest \<Rightarrow> [Subscribe dest (c_username self)]
                | None \<Rightarrow> [])
          else [])"








section \<open>Example data\<close>

definition glob_admin :: role_assignment where
  "glob_admin = \<lparr>role = ''admin'', domain = \<lparr>scope = ''Global'', identifiers = []\<rparr>\<rparr>"

text \<open>Two stand-ins for \<^verbatim>\<open>set_password\<close>: one without salt, one salted by the call.\<close>

definition example_hash :: "nat \<Rightarrow> string \<Rightarrow> string" where
  "example_hash k p = ''hashed:'' @ p"

definition salted_hash :: "nat \<Rightarrow> string \<Rightarrow> string" where
  "salted_hash k p = replicate k (CHR ''s'') @ '':'' @ p"

definition route_ok :: "operation \<Rightarrow> py_error option" where
  "route_ok opn = None"

definition empty_db :: db where
  "empty_db = \<lparr>db_users = [], db_remote_users = [], db_gardens = [], db_published = [],
               db_logged = [], db_routed = [], db_set_password_calls = 0\<rparr>"

definition bob_prehashed_no_roles :: serialized_user where
  "bob_prehashed_no_roles =
     \<lparr>su_username = Some ''bob'',
      su_loaded = Inr \<lparr>pd_password = None, pd_hashed_password = Some ''h1'',
                       pd_role_assignments = Some []\<rparr>\<rparr>"

definition bob_roles_only :: serialized_user where
  "bob_roles_only =
     \<lparr>su_username = Some ''bob'',
      su_loaded = Inr \<lparr>pd_password = None, pd_hashed_password = None,
                       pd_role_assignments = Some [glob_admin]\<rparr>\<rparr>"

definition alice_record :: serialized_user where
  "alice_record =
     \<lparr>su_username = Some ''alice'',
      su_loaded = Inr \<lparr>pd_password = None, pd_hashed_password = Some ''h2'',
                       pd_role_assignments = Some [glob_admin]\<rparr>\<rparr>"

definition record_without_username :: serialized_user where
  "record_without_username =
     \<lparr>su_username = None,
      su_loaded = Inr \<lparr>pd_password = None, pd_hashed_password = None,
                       pd_role_assignments = Some [glob_admin]\<rparr>\<rparr>"

definition invalid_record :: serialized_user where
  "invalid_record = \<lparr>su_username = Some ''carol'', su_loaded = Inl ''Not a valid list.''\<rparr>"

definition db_with_alice :: db where
  "db_with_alice = empty_db\<lparr>db_users :=
      [\<lparr>username = ''alice'', password = Some ''old'', role_assignments = []\<rparr>]\<rparr>"

definition bob_no_roles :: serialized_user where
  "bob_no_roles =
     \<lparr>su_username = Some ''bob'',
      su_loaded = Inr \<lparr>pd_password = Some ''secret'', pd_hashed_password = None,
                       pd_role_assignments = Some []\<rparr>\<rparr>"

definition carol_plain :: serialized_user where
  "carol_plain =
     \<lparr>su_username = Some ''carol'',
      su_loaded = Inr \<lparr>pd_password = Some ''secret'', pd_hashed_password = None,
                       pd_role_assignments = Some [glob_admin]\<rparr>\<rparr>"

definition record_without_role_assignments :: serialized_user where
  "record_without_role_assignments =
     \<lparr>su_username = Some ''dave'',
      su_loaded = Inr \<lparr>pd_password = None, pd_hashed_password = Some ''h3'',
                       pd_role_assignments = None\<rparr>\<rparr>"

definition alice_rejected :: serialized_user where
  "alice_rejected = \<lparr>su_username = Some ''alice'', su_loaded = Inl ''Not a valid string.''\<rparr>"

definition alice_empty_hash :: serialized_user where
  "alice_empty_hash =
     \<lparr>su_username = Some ''alice'',
      su_loaded = Inr \<lparr>pd_password = Some ''secret'', pd_hashed_password = Some [],
                       pd_role_assignments = Some [glob_admin]\<rparr>\<rparr>"

definition example_parse :: "string \<Rightarrow> py_error + operation" where
  "example_parse m =
     (if m = ''garbage'' then Inl (OtherError ''cannot parse'')
      else Inr \<lparr>operation_type = m, target_garden_name = None,
                kwargs = [(''wait_timeout'', KInt 5)]\<rparr>)"

definition example_route :: "operation \<Rightarrow> py_error + py_result" where
  "example_route opn =
     (if operation_type opn = ''FAIL'' then Inl (OtherError ''routing failed'')
      else if operation_type opn = ''QUIET'' then Inr PyNone
      else Inr (PyObject (operation_type opn)))"

definition example_process :: "py_result \<Rightarrow> py_error + (string \<times> headers)" where
  "example_process r =
     (case r of
        PyObject s \<Rightarrow> Inr (s, [(''model_class'', ''Request'')])
      | _ \<Rightarrow> Inl (OtherError ''cannot serialize''))"

definition example_append :: "headers \<Rightarrow> headers option \<Rightarrow> headers option \<Rightarrow> headers" where
  "example_append rh req gh = rh @ or_empty gh @ or_empty req"

definition example_env :: env where
  "example_env =
     \<lparr>env_parse_operation = example_parse, env_route = example_route,
      env_process_send_message = example_process, env_append_headers = example_append,
      env_send_raises = (\<lambda>f. None)\<rparr>"

text \<open>The same collaborators with a library whose \<^verbatim>\<open>send\<close> fails on every frame.\<close>

definition failing_send_env :: env where
  "failing_send_env = example_env\<lparr>env_send_raises := (\<lambda>f. Some (OtherError ''socket closed''))\<rparr>"

definition reply_to_x :: headers where
  "reply_to_x = [(''reply-to'', ''X'')]"

definition listener_with_default :: listener where
  "listener_with_default =
     \<lparr>l_conn = \<lparr>connected = True, calls = []\<rparr>, l_send_destination = Some ''replies'',
      l_warnings = []\<rparr>"

definition listener_without_default :: listener where
  "listener_without_default =
     \<lparr>l_conn = \<lparr>connected = True, calls = []\<rparr>, l_send_destination = None, l_warnings = []\<rparr>"

definition listener_down :: listener where
  "listener_down =
     \<lparr>l_conn = \<lparr>connected = False, calls = []\<rparr>, l_send_destination = Some ''replies'',
      l_warnings = []\<rparr>"

definition subscriber :: connection where
  "subscriber =
     \<lparr>host_and_ports = Some [(Some ''localhost'', Some 61613)], c_username = Some ''bg'',
      c_password = Some ''pw'', subscribe_destination = Some ''operations'',
      send_destination = Some ''events'', bg_active = True,
      c_conn = \<lparr>connected = False, calls = []\<rparr>, c_logged = []\<rparr>"

definition publisher :: connection where
  "publisher =
     \<lparr>host_and_ports = Some [(Some ''localhost'', Some 61613)], c_username = Some ''bg'',
      c_password = Some ''pw'', subscribe_destination = None,
      send_destination = Some ''events'', bg_active = True,
      c_conn = \<lparr>connected = False, calls = []\<rparr>, c_logged = []\<rparr>"




text \<open>
  A handler whose parser hands over the given operations and whose backend answers with the
  status of the job and the number of calls it has received.
\<close>

definition example_handler :: "patch_operation list \<Rightarrow> handler_env" where
  "example_handler ops =
     \<lparr>env_parse_patch = (\<lambda>decoded_body. Inr ops),
      client_pauseJob = (\<lambda>cs job_id. Inr (''PAUSED '' @ job_id @ replicate (length cs) (CHR ''+''))),
      client_resumeJob = (\<lambda>cs job_id. Inr (''RUNNING '' @ job_id @ replicate (length cs) (CHR ''+'')))\<rparr>"

section \<open>Role filtering\<close>

lemma filter_result_ref:
  "fst (filter_role_assigments_by_garden h u g) = length h"
  by (simp add: filter_role_assigments_by_garden_def copy_def Let_def)

lemma filter_result_heap:
  "snd (filter_role_assigments_by_garden h u g) =
     h @ [(h ! u)\<lparr>role_assignments := filter (assignment_applies (namespaces g)) (role_assignments (h ! u))\<rparr>]"
  by (simp add: filter_role_assigments_by_garden_def copy_def Let_def set_role_assignments_def)

text \<open>
  C5. The role assignments of the user returned by the garden filter are exactly the
  assignments of the given user whose scope is \<open>Global\<close>, or \<open>Garden\<close> with the
  identifier \<open>name\<close> among the garden's namespaces, or \<open>System\<close> with the identifier
  \<open>namespace\<close> among them, in their original order. For the assignments \<open>Global\<close>,
  \<open>Garden{b}\<close>, \<open>System{ns1}\<close> and the namespaces \<open>{ns1}\<close> the result is
  \<open>Global\<close>, \<open>System{ns1}\<close>.
\<close>

theorem filter_role_assignments_exact:
  "(case filter_role_assigments_by_garden h u g of (f, h') \<Rightarrow>
      role_assignments (h' ! f) =
        filter (\<lambda>a. scope (domain a) = ''Global''
                  \<or> (scope (domain a) = ''Garden''
                       \<and> (\<exists>v. map_of (identifiers (domain a)) ''name'' = Some v \<and> v \<in> set (namespaces g)))
                  \<or> (scope (domain a) = ''System''
                       \<and> (\<exists>v. map_of (identifiers (domain a)) ''namespace'' = Some v \<and> v \<in> set (namespaces g))))
               (role_assignments (h ! u)))
   \<and> (let glob = \<lparr>role = ''admin'', domain = \<lparr>scope = ''Global'', identifiers = []\<rparr>\<rparr>;
           gard = \<lparr>role = ''admin'', domain = \<lparr>scope = ''Garden'', identifiers = [(''name'', ''b'')]\<rparr>\<rparr>;
           syst = \<lparr>role = ''admin'', domain = \<lparr>scope = ''System'', identifiers = [(''namespace'', ''ns1'')]\<rparr>\<rparr>;
           h0 = [\<lparr>username = ''alice'', password = None, role_assignments = [glob, gard, syst]\<rparr>];
           g0 = \<lparr>name = ''child'', connection_type = Some ''STOMP'', namespaces = [''ns1'']\<rparr>
       in (case filter_role_assigments_by_garden h0 0 g0 of (f, h') \<Rightarrow>
             role_assignments (h' ! f) = [glob, syst]))"
proof -
  have eq: "assignment_applies (namespaces g) =
     (\<lambda>a. scope (domain a) = ''Global''
          \<or> (scope (domain a) = ''Garden''
               \<and> (\<exists>v. map_of (identifiers (domain a)) ''name'' = Some v \<and> v \<in> set (namespaces g)))
          \<or> (scope (domain a) = ''System''
               \<and> (\<exists>v. map_of (identifiers (domain a)) ''namespace'' = Some v \<and> v \<in> set (namespaces g))))"
    by (rule ext) (auto simp: assignment_applies_def get_in_def split: option.splits)
  have general: "role_assignments (snd (filter_role_assigments_by_garden h u g) ! fst (filter_role_assigments_by_garden h u g))
        = filter (assignment_applies (namespaces g)) (role_assignments (h ! u))"
    by (simp add: filter_result_ref filter_result_heap)
  have example: "(let glob = \<lparr>role = ''admin'', domain = \<lparr>scope = ''Global'', identifiers = []\<rparr>\<rparr>;
           gard = \<lparr>role = ''admin'', domain = \<lparr>scope = ''Garden'', identifiers = [(''name'', ''b'')]\<rparr>\<rparr>;
           syst = \<lparr>role = ''admin'', domain = \<lparr>scope = ''System'', identifiers = [(''namespace'', ''ns1'')]\<rparr>\<rparr>;
           h0 = [\<lparr>username = ''alice'', password = None, role_assignments = [glob, gard, syst]\<rparr>];
           g0 = \<lparr>name = ''child'', connection_type = Some ''STOMP'', namespaces = [''ns1'']\<rparr>
       in (case filter_role_assigments_by_garden h0 0 g0 of (f, h') \<Rightarrow>
             role_assignments (h' ! f) = [glob, syst]))"
    by (simp add: filter_role_assigments_by_garden_def copy_def Let_def set_role_assignments_def
        assignment_applies_def get_in_def)
  from general eq example show ?thesis
    by (simp add: case_prod_beta)
qed


section \<open>The garden filter leaves its argument alone\<close>

lemma filter_eq:
  "filter_role_assigments_by_garden h u g = (length h, h @ [filtered_copy g (h ! u)])"
  by (simp add: filter_role_assigments_by_garden_def copy_def Let_def set_role_assignments_def
      filtered_copy_def)

lemma upt_step: "[n ..< n + Suc m] = n # [Suc n ..< Suc n + m]"
  by (subst upt_rec) simp

lemma filter_users_eq:
  "\<forall>u \<in> set us. u < length h \<Longrightarrow>
   filter_users h us g =
     ([length h ..< length h + length us], h @ map (\<lambda>u. filtered_copy g (h ! u)) us)"
proof (induction us arbitrary: h)
  case Nil
  then show ?case by simp
next
  case (Cons u us)
  let ?h1 = "h @ [filtered_copy g (h ! u)]"
  have valid: "\<forall>v \<in> set us. v < length ?h1"
    using Cons.prems by auto
  have same: "map (\<lambda>v. filtered_copy g (?h1 ! v)) us = map (\<lambda>v. filtered_copy g (h ! v)) us"
    using Cons.prems by (auto simp: nth_append)
  have "filter_users ?h1 us g =
      ([length ?h1 ..< length ?h1 + length us], ?h1 @ map (\<lambda>v. filtered_copy g (?h1 ! v)) us)"
    by (rule Cons.IH [OF valid])
  moreover have "[length h ..< length h + length (u # us)] = length h # [length ?h1 ..< length ?h1 + length us]"
    using upt_step [of "length h" "length us"] by simp
  ultimately show ?case
    by (simp add: filter_eq same del: upt_Suc)
qed

lemma read_appended:
  "map (\<lambda>r. (h @ ys) ! r) [length h ..< length h + length ys] = ys"
proof -
  have "[length h ..< length h + length ys] = map (\<lambda>i. i + length h) [0 ..< length ys]"
    by (simp add: map_add_upt add.commute)
  then have "map (\<lambda>r. (h @ ys) ! r) [length h ..< length h + length ys] = map (\<lambda>i. ys ! i) [0 ..< length ys]"
    by (simp add: o_def nth_append del: upt_Suc)
  then show ?thesis by (simp add: map_nth)
qed

lemma sync_payloads_eq:
  "\<forall>u \<in> set us. u < length h \<Longrightarrow>
   fst (sync_payloads h us gs) =
     map (\<lambda>g. (name g, map (\<lambda>u. filtered_copy g (h ! u)) us)) gs"
proof (induction gs arbitrary: h)
  case Nil
  then show ?case by simp
next
  case (Cons g gs)
  let ?ys = "map (\<lambda>u. filtered_copy g (h ! u)) us"
  let ?h1 = "h @ ?ys"
  have step: "filter_users h us g = ([length h ..< length h + length us], ?h1)"
    by (rule filter_users_eq [OF Cons.prems])
  have valid: "\<forall>u \<in> set us. u < length ?h1"
    using Cons.prems by auto
  have rest: "fst (sync_payloads ?h1 us gs) =
      map (\<lambda>g'. (name g', map (\<lambda>u. filtered_copy g' (?h1 ! u)) us)) gs"
    by (rule Cons.IH [OF valid])
  have same: "\<And>g'. map (\<lambda>u. filtered_copy g' (?h1 ! u)) us = map (\<lambda>u. filtered_copy g' (h ! u)) us"
    using Cons.prems by (auto simp: nth_append)
  have ser: "map (\<lambda>r. ?h1 ! r) [length h ..< length h + length us] = ?ys"
    using read_appended [of h ?ys] by simp
  show ?case
    using rest by (simp add: step ser same case_prod_beta)
qed

text \<open>
  C10. Filtering a user's role assignments by a garden does not change the object it
  is given: the result is a new object (a reference different from the argument), the
  argument and every other object allocated before the call hold the same values after
  it, and only the new object carries the filtered list. Hence in
  \<^verbatim>\<open>initiate_user_sync\<close> the payload built for each garden is the filter of the
  users' full assignment lists, whatever gardens were handled before it.
\<close>

theorem filter_leaves_user_unchanged:
  assumes "\<forall>r \<in> set (u # us). r < length h"
  shows "(case filter_role_assigments_by_garden h u g of (f, h') \<Rightarrow>
            f \<noteq> u \<and> h' ! u = h ! u \<and> take (length h) h' = h
            \<and> role_assignments (h' ! u) = role_assignments (h ! u)
            \<and> h' ! f = filtered_copy g (h ! u))
         \<and> fst (sync_payloads h us gs) =
             map (\<lambda>g. (name g, map (\<lambda>u. filtered_copy g (h ! u)) us)) gs"
proof -
  from assms have u: "u < length h" and us: "\<forall>v \<in> set us. v < length h"
    by simp_all
  have first: "(case filter_role_assigments_by_garden h u g of (f, h') \<Rightarrow>
            f \<noteq> u \<and> h' ! u = h ! u \<and> take (length h) h' = h
            \<and> role_assignments (h' ! u) = role_assignments (h ! u)
            \<and> h' ! f = filtered_copy g (h ! u))"
    using u by (simp add: filter_eq nth_append)
  from first sync_payloads_eq [OF us] show ?thesis
    by simp
qed

text \<open>
  The same user filtered for two gardens in turn: the second garden, whose namespace
  matches the \<open>Garden\<close> assignment the first one dropped, still receives it.
\<close>

theorem filter_leaves_user_unchanged_witness:
  "(let glob = \<lparr>role = ''admin'', domain = \<lparr>scope = ''Global'', identifiers = []\<rparr>\<rparr>;
        gard = \<lparr>role = ''admin'', domain = \<lparr>scope = ''Garden'', identifiers = [(''name'', ''b'')]\<rparr>\<rparr>;
        syst = \<lparr>role = ''admin'', domain = \<lparr>scope = ''System'', identifiers = [(''namespace'', ''ns1'')]\<rparr>\<rparr>;
        alice = \<lparr>username = ''alice'', password = None, role_assignments = [glob, gard, syst]\<rparr>;
        g1 = \<lparr>name = ''child1'', connection_type = Some ''STOMP'', namespaces = [''ns1'']\<rparr>;
        g2 = \<lparr>name = ''child2'', connection_type = Some ''HTTP'', namespaces = [''b'']\<rparr>
    in fst (filter_role_assigments_by_garden [alice] 0 g1) = 1
       \<and> snd (filter_role_assigments_by_garden [alice] 0 g1) ! 0 = alice
       \<and> fst (sync_payloads [alice] [0] [g1, g2]) =
           [(''child1'', [alice\<lparr>role_assignments := [glob, syst]\<rparr>]),
            (''child2'', [alice\<lparr>role_assignments := [glob, gard]\<rparr>])])"
proof -
  let ?glob = "\<lparr>role = ''admin'', domain = \<lparr>scope = ''Global'', identifiers = []\<rparr>\<rparr>"
  let ?gard = "\<lparr>role = ''admin'', domain = \<lparr>scope = ''Garden'', identifiers = [(''name'', ''b'')]\<rparr>\<rparr>"
  let ?syst = "\<lparr>role = ''admin'', domain = \<lparr>scope = ''System'', identifiers = [(''namespace'', ''ns1'')]\<rparr>\<rparr>"
  let ?alice = "\<lparr>username = ''alice'', password = None, role_assignments = [?glob, ?gard, ?syst]\<rparr>"
  let ?g1 = "\<lparr>name = ''child1'', connection_type = Some ''STOMP'', namespaces = [''ns1'']\<rparr>"
  let ?g2 = "\<lparr>name = ''child2'', connection_type = Some ''HTTP'', namespaces = [''b'']\<rparr>"
  have valid: "\<forall>u \<in> set (0 # [0]). u < length [?alice]"
    by simp
  show ?thesis
    using filter_leaves_user_unchanged [OF valid, of ?g1 "[?g1, ?g2]"]
    by (simp add: case_prod_beta filtered_copy_def assignment_applies_def get_in_def
        filter_role_assigments_by_garden_def copy_def set_role_assignments_def Let_def)
qed

section \<open>The import of serialized users\<close>

lemma find_save_same: "username u = n \<Longrightarrow> objects_get (save u xs) n = Some u"
  by (induction xs) (auto simp: objects_get_def)

lemma find_save_other: "username u \<noteq> n \<Longrightarrow> objects_get (save u xs) n = objects_get xs n"
  by (induction xs) (auto simp: objects_get_def)

lemma save_found: "objects_get xs (username u) = Some u \<Longrightarrow> save u xs = xs"
  by (induction xs) (auto simp: objects_get_def split: if_splits)

lemma objects_get_username: "objects_get xs n = Some u \<Longrightarrow> username u = n"
  by (induction xs) (auto simp: objects_get_def split: if_splits)

lemma update_user_eq:
  "update_user set_pw d usr dat =
     (updated set_pw (db_set_password_calls d) usr dat,
      d\<lparr>db_users := save (updated set_pw (db_set_password_calls d) usr dat) (db_users d),
        db_set_password_calls :=
          (if pd_password dat \<noteq> None \<and> pd_hashed_password dat = None
           then Suc (db_set_password_calls d) else db_set_password_calls d),
        db_published := db_published d @ [updated set_pw (db_set_password_calls d) usr dat]\<rparr>)"
  by (cases "pd_password dat"; cases "pd_hashed_password dat"; cases "pd_role_assignments dat")
     (simp_all add: update_user_def updated_def Let_def publish_user_updated_def)

lemma update_user_fst:
  "fst (update_user set_pw d usr dat) = updated set_pw (db_set_password_calls d) usr dat"
  by (simp add: update_user_eq)

lemma update_user_users:
  "db_users (snd (update_user set_pw d usr dat))
     = save (updated set_pw (db_set_password_calls d) usr dat) (db_users d)"
  by (simp add: update_user_eq)

lemma update_user_calls:
  "db_set_password_calls (snd (update_user set_pw d usr dat))
     = (if pd_password dat \<noteq> None \<and> pd_hashed_password dat = None
        then Suc (db_set_password_calls d) else db_set_password_calls d)"
  by (simp add: update_user_eq)

lemma updated_username: "username (updated set_pw k usr dat) = username usr"
  by (cases "pd_password dat"; cases "pd_hashed_password dat"; cases "pd_role_assignments dat")
     (simp_all add: update_user_def updated_def Let_def)

lemma updated_idem: "updated set_pw k (updated set_pw k usr dat) dat = updated set_pw k usr dat"
  by (cases "pd_password dat"; cases "pd_hashed_password dat"; cases "pd_role_assignments dat")
     (simp_all add: update_user_def updated_def Let_def)

lemma updated_steady:
  assumes "su_loaded su = Inr dat" and "steady set_pw su"
  shows "updated set_pw k usr dat = updated set_pw 0 usr dat"
proof (cases "pd_password dat")
  case None
  then show ?thesis
    by (cases "pd_hashed_password dat"; cases "pd_role_assignments dat")
       (simp_all add: update_user_def updated_def Let_def)
next
  case (Some v)
  show ?thesis
  proof (cases "pd_hashed_password dat")
    case None
    then have "set_pw k v = set_pw 0 v"
      using assms Some by (simp add: steady_def)
    then show ?thesis
      using Some None
      by (cases "pd_role_assignments dat") (simp_all add: update_user_def updated_def Let_def)
  next
    case (Some hp)
    then show ?thesis
      using \<open>pd_password dat = Some v\<close>
      by (cases "pd_role_assignments dat") (simp_all add: update_user_def updated_def Let_def)
  qed
qed

lemma update_user_remote: "db_remote_users (snd (update_user set_pw d usr dat)) = db_remote_users d"
  by (simp add: update_user_eq)


lemma import_user_users:
  assumes "import_user set_pw d su = Inr d1" and n: "su_username su = Some n" and dat: "su_loaded su = Inr dat"
  shows "db_users d1 =
     (case objects_get (db_users d) n of
        Some usr \<Rightarrow> save (updated set_pw (db_set_password_calls d) usr dat) (db_users d)
      | None \<Rightarrow> if pd_role_assignments dat = Some [] then db_users d
                else save (updated set_pw (db_set_password_calls d)
                             \<lparr>username = n, password = None, role_assignments = []\<rparr> dat)
                       (save \<lparr>username = n, password = None, role_assignments = []\<rparr> (db_users d)))"
proof (cases "objects_get (db_users d) n")
  case (Some usr)
  then show ?thesis using assms by (auto simp add: import_user_def update_user_users)
next
  case None
  show ?thesis
  proof (cases "pd_role_assignments dat")
    case None
    then show ?thesis using assms \<open>objects_get (db_users d) n = None\<close> by (simp add: import_user_def)
  next
    case (Some ras)
    then show ?thesis using assms \<open>objects_get (db_users d) n = None\<close>
      by (cases ras) (auto simp add: import_user_def update_user_users Let_def)
  qed
qed

lemma settled_stable:
  assumes "settled set_pw (db_users d) su" and st: "steady set_pw su"
  shows "\<exists>d1. import_user set_pw d su = Inr d1 \<and> db_users d1 = db_users d"
proof -
  from assms obtain n where n: "su_username su = Some n"
    by (auto simp: settled_def split: option.splits)
  show ?thesis
  proof (cases "su_loaded su")
    case (Inl exc)
    then show ?thesis using n by (simp add: import_user_def)
  next
    case (Inr dat)
    show ?thesis
    proof (cases "objects_get (db_users d) n")
      case None
      with assms n Inr have "pd_role_assignments dat = Some []"
        by (simp add: settled_def)
      then show ?thesis using n Inr None by (simp add: import_user_def)
    next
      case (Some usr)
      with assms n Inr have "updated set_pw 0 usr dat = usr"
        by (simp add: settled_def)
      then have fixed: "updated set_pw (db_set_password_calls d) usr dat = usr"
        using updated_steady [OF Inr st, of "db_set_password_calls d" usr] by simp
      have "username usr = n" using Some by (rule objects_get_username)
      then have "save usr (db_users d) = db_users d"
        using Some by (simp add: save_found)
      then show ?thesis
        using n Inr Some fixed by (simp add: import_user_def update_user_users)
    qed
  qed
qed

lemma import_user_settles:
  assumes ok: "import_user set_pw d su = Inr d1" and st: "steady set_pw su"
  shows "settled set_pw (db_users d1) su"
proof -
  from ok obtain n where n: "su_username su = Some n"
    by (auto simp: import_user_def split: option.splits)
  show ?thesis
  proof (cases "su_loaded su")
    case (Inl exc)
    then show ?thesis using n by (simp add: settled_def)
  next
    case (Inr dat)
    note us = import_user_users [OF ok n Inr]
    have again: "updated set_pw 0 (updated set_pw (db_set_password_calls d) usr dat) dat
        = updated set_pw (db_set_password_calls d) usr dat" for usr
    proof -
      have "updated set_pw 0 (updated set_pw (db_set_password_calls d) usr dat) dat
          = updated set_pw (db_set_password_calls d)
              (updated set_pw (db_set_password_calls d) usr dat) dat"
        by (rule updated_steady [OF Inr st, symmetric])
      then show ?thesis by (simp add: updated_idem)
    qed
    show ?thesis
    proof (cases "objects_get (db_users d) n")
      case None
      show ?thesis
      proof (cases "pd_role_assignments dat = Some []")
        case True
        then show ?thesis using us None n Inr by (simp add: settled_def)
      next
        case False
        then show ?thesis using us None n Inr
          by (simp add: settled_def find_save_same updated_username again)
      qed
    next
      case (Some usr)
      have "username usr = n" using Some by (rule objects_get_username)
      then show ?thesis using us Some n Inr
        by (simp add: settled_def find_save_same updated_username again)
    qed
  qed
qed

lemma import_user_other:
  assumes ok: "import_user set_pw d su = Inr d1" and other: "su_username su \<noteq> Some n"
  shows "objects_get (db_users d1) n = objects_get (db_users d) n"
proof (cases "su_username su")
  case None
  then show ?thesis using ok by (simp add: import_user_def)
next
  case (Some m)
  then have mn: "m \<noteq> n" using other by simp
  show ?thesis
  proof (cases "su_loaded su")
    case (Inl exc)
    then have "d1 = d\<lparr>db_logged := db_logged d
                      @ [''Failed to import user '' @ m @ '' due to error: '' @ exc]\<rparr>"
      using ok Some by (simp add: import_user_def)
    then show ?thesis by simp
  next
    case (Inr dat)
    note us = import_user_users [OF ok Some Inr]
    show ?thesis
    proof (cases "objects_get (db_users d) m")
      case None
      then show ?thesis using us mn
        by (simp add: find_save_other updated_username)
    next
      case (Some usr)
      have "username usr = m" using Some by (rule objects_get_username)
      then show ?thesis using us Some mn
        by (simp add: find_save_other updated_username)
    qed
  qed
qed

lemma settled_cong:
  "objects_get us' n = objects_get us n \<Longrightarrow> su_username su = Some n \<Longrightarrow>
   settled set_pw us' su = settled set_pw us su"
  by (cases "su_loaded su") (simp_all add: settled_def)

lemma settled_preserved:
  "settled set_pw (db_users d) su \<Longrightarrow> su_username su \<notin> set (map su_username rest) \<Longrightarrow>
   settled set_pw (db_users (snd (import_users set_pw d rest))) su"
proof (induction rest arbitrary: d)
  case Nil
  then show ?case by simp
next
  case (Cons r rest)
  from Cons.prems(1) obtain n where n: "su_username su = Some n"
    by (auto simp: settled_def split: option.splits)
  show ?case
  proof (cases "import_user set_pw d r")
    case (Inl e)
    then show ?thesis using Cons.prems by simp
  next
    case (Inr d1)
    have "su_username r \<noteq> Some n" using Cons.prems(2) n by auto
    then have "objects_get (db_users d1) n = objects_get (db_users d) n"
      using Inr by (intro import_user_other)
    then have "settled set_pw (db_users d1) su = settled set_pw (db_users d) su"
      using n by (rule settled_cong)
    then have "settled set_pw (db_users d1) su"
      using Cons.prems(1) by simp
    moreover have "su_username su \<notin> set (map su_username rest)"
      using Cons.prems(2) by simp
    ultimately have "settled set_pw (db_users (snd (import_users set_pw d1 rest))) su"
      by (rule Cons.IH)
    then show ?thesis using Inr by simp
  qed
qed

lemma import_user_error_cong:
  assumes err: "import_user set_pw d su = Inl e" and same: "db_users d2 = db_users d"
  shows "import_user set_pw d2 su = Inl e"
proof (cases "su_username su")
  case None
  then show ?thesis using err by (simp add: import_user_def)
next
  case (Some n)
  note n = this
  show ?thesis
  proof (cases "su_loaded su")
    case (Inl exc)
    then show ?thesis using err n by (simp add: import_user_def)
  next
    case (Inr dat)
    show ?thesis
    proof (cases "objects_get (db_users d) n")
      case (Some usr)
      then show ?thesis using err n Inr by (simp add: import_user_def)
    next
      case None
      then show ?thesis using err n Inr same
        by (cases "pd_role_assignments dat") (simp_all add: import_user_def Let_def split: if_splits)
    qed
  qed
qed

lemma import_users_again:
  "distinct (map su_username p) \<Longrightarrow> list_all (steady set_pw) p \<Longrightarrow>
   db_users d2 = db_users (snd (import_users set_pw d p)) \<Longrightarrow>
   fst (import_users set_pw d2 p) = fst (import_users set_pw d p)
   \<and> db_users (snd (import_users set_pw d2 p)) = db_users (snd (import_users set_pw d p))"
proof (induction p arbitrary: d d2)
  case Nil
  then show ?case by simp
next
  case (Cons su rest)
  show ?case
  proof (cases "import_user set_pw d su")
    case (Inl e)
    moreover have "db_users d2 = db_users d"
      using Cons.prems(3) Inl by simp
    ultimately have "import_user set_pw d2 su = Inl e"
      by (rule import_user_error_cong)
    then show ?thesis using Inl \<open>db_users d2 = db_users d\<close> by simp
  next
    case (Inr dA)
    have st: "steady set_pw su" and sts: "list_all (steady set_pw) rest"
      using Cons.prems(2) by simp_all
    have "settled set_pw (db_users dA) su" using Inr st by (rule import_user_settles)
    moreover have "su_username su \<notin> set (map su_username rest)"
      using Cons.prems(1) by simp
    ultimately have "settled set_pw (db_users (snd (import_users set_pw dA rest))) su"
      by (rule settled_preserved)
    moreover have final: "db_users d2 = db_users (snd (import_users set_pw dA rest))"
      using Cons.prems(3) Inr by simp
    ultimately have "settled set_pw (db_users d2) su"
      by simp
    then obtain dB where dB: "import_user set_pw d2 su = Inr dB" "db_users dB = db_users d2"
      using settled_stable [of set_pw d2 su] st by blast
    have "distinct (map su_username rest)" using Cons.prems(1) by simp
    moreover note sts
    moreover have "db_users dB = db_users (snd (import_users set_pw dA rest))"
      using dB(2) final by simp
    ultimately have "fst (import_users set_pw dB rest) = fst (import_users set_pw dA rest)
        \<and> db_users (snd (import_users set_pw dB rest)) = db_users (snd (import_users set_pw dA rest))"
      by (rule Cons.IH)
    then show ?thesis
      using dB(1) Inr by simp
  qed
qed

lemma route_all_users: "db_users (snd (route_all route d ops)) = db_users d
    \<and> db_remote_users (snd (route_all route d ops)) = db_remote_users d"
  by (induction ops arbitrary: d) (auto split: option.splits)

lemma initiate_user_sync_users:
  "db_users (snd (initiate_user_sync route d)) = db_users d
   \<and> db_remote_users (snd (initiate_user_sync route d)) = db_remote_users d"
  by (simp add: initiate_user_sync_def Let_def route_all_users)

lemma import_user_remote:
  "import_user set_pw d su = Inr d1 \<Longrightarrow> db_remote_users d1 = db_remote_users d"
  by (auto simp: import_user_def update_user_remote Let_def split: option.splits sum.splits if_splits)

lemma import_users_remote:
  "db_remote_users (snd (import_users set_pw d p)) = db_remote_users d"
proof (induction p arbitrary: d)
  case Nil
  then show ?case by simp
next
  case (Cons su rest)
  show ?case
  proof (cases "import_user set_pw d su")
    case (Inl e)
    then show ?thesis by simp
  next
    case (Inr d1)
    then show ?thesis using Cons.IH [of d1] import_user_remote [OF Inr] by simp
  qed
qed

lemma user_sync_users:
  "db_users (snd (user_sync set_pw route d p)) = db_users (snd (import_users set_pw d p))
   \<and> db_remote_users (snd (user_sync set_pw route d p)) = db_remote_users d"
proof (cases "import_users set_pw d p")
  case (Pair e d1)
  have "db_remote_users d1 = db_remote_users d"
    using import_users_remote [of set_pw d p] Pair by simp
  then show ?thesis
    using Pair by (cases e) (simp_all add: user_sync_def initiate_user_sync_users)
qed


lemma import_users_append:
  "import_users set_pw d (pre @ post) =
     (case import_users set_pw d pre of
        (Some e, d1) \<Rightarrow> (Some e, d1)
      | (None, d1) \<Rightarrow> import_users set_pw d1 post)"
proof (induction pre arbitrary: d)
  case Nil
  then show ?case by simp
next
  case (Cons su pre)
  then show ?case by (cases "import_user set_pw d su") simp_all
qed

lemma length_save_absent: "objects_get xs (username u) = None \<Longrightarrow> length (save u xs) = Suc (length xs)"
  by (induction xs) (auto simp: objects_get_def split: if_splits)

lemma length_save_present: "objects_get xs (username u) = Some v \<Longrightarrow> length (save u xs) = length xs"
  by (induction xs) (auto simp: objects_get_def split: if_splits)

lemma updated_hashed:
  "pd_hashed_password dat = Some hp \<Longrightarrow> hp \<noteq> [] \<Longrightarrow> password (updated set_pw k usr dat) = Some hp"
  by (cases "pd_password dat"; cases "pd_role_assignments dat")
     (simp_all add: update_user_def updated_def Let_def)

lemma updated_roles:
  "pd_role_assignments dat = Some ras \<Longrightarrow> role_assignments (updated set_pw k usr dat) = ras"
  by (cases "pd_password dat"; cases "pd_hashed_password dat")
     (simp_all add: update_user_def updated_def Let_def)

lemma user_sync_append:
  "import_users set_pw d pre = (None, d1) \<Longrightarrow> import_user set_pw d1 su = Inr d2 \<Longrightarrow>
   import_users set_pw d (pre @ su # post) = import_users set_pw d2 post
   \<and> user_sync set_pw route d (pre @ su # post) = user_sync set_pw route d2 post"
  by (simp add: user_sync_def import_users_append)

lemma save_absent: "objects_get xs (username u) = None \<Longrightarrow> save u xs = xs @ [u]"
  by (induction xs) (auto simp: objects_get_def split: if_splits)

lemma save_last:
  "objects_get xs (username u) = None \<Longrightarrow> username v = username u \<Longrightarrow> save u (xs @ [v]) = xs @ [u]"
  by (induction xs) (auto simp: objects_get_def split: if_splits)

subsection \<open>Applying the same payload twice\<close>

text \<open>
  C3 (as amended). For every payload whose records carry pairwise distinct
  \<^verbatim>\<open>"username"\<close> entries, as a dump of the \<^verbatim>\<open>User\<close> collection does, and in which
  every plain password that reaches \<^verbatim>\<open>set_password\<close> (a loaded record with a
  \<^verbatim>\<open>password\<close> key and no \<^verbatim>\<open>hashed_password\<close> key) is stored by
  \<^verbatim>\<open>set_password\<close> as the same value at every call, applying \<^verbatim>\<open>user_sync\<close> a
  second time leaves the stored \<^verbatim>\<open>User\<close> documents as the first application left
  them: no user is added, removed or changed. \<^verbatim>\<open>user_sync\<close> writes no
  \<^verbatim>\<open>RemoteUser\<close> document at all, so that collection is after either application what
  it was before the first. This holds whatever the router does and also when either run
  ends in an exception.
\<close>

theorem user_sync_idempotent:
  assumes "distinct (map su_username p)"
    and "\<forall>su \<in> set p. \<forall>dat v. su_loaded su = Inr dat \<and> pd_password dat = Some v
                \<and> pd_hashed_password dat = None \<longrightarrow> (\<forall>j k. set_pw j v = set_pw k v)"
  shows "db_users (snd (user_sync set_pw route (snd (user_sync set_pw route d p)) p))
           = db_users (snd (user_sync set_pw route d p))
         \<and> db_remote_users (snd (user_sync set_pw route (snd (user_sync set_pw route d p)) p))
           = db_remote_users d
         \<and> db_remote_users (snd (user_sync set_pw route d p)) = db_remote_users d"
proof -
  let ?r1 = "snd (user_sync set_pw route d p)"
  have st: "list_all (steady set_pw) p"
    unfolding list_all_iff
  proof
    fix su
    assume "su \<in> set p"
    then have "\<forall>dat v. su_loaded su = Inr dat \<and> pd_password dat = Some v
                \<and> pd_hashed_password dat = None \<longrightarrow> (\<forall>j k. set_pw j v = set_pw k v)"
      using assms(2) by blast
    then show "steady set_pw su"
      by (cases "su_loaded su") (auto simp: steady_def split: option.splits)
  qed
  have start: "db_users ?r1 = db_users (snd (import_users set_pw d p))"
    by (simp add: user_sync_users)
  have "db_users (snd (import_users set_pw ?r1 p)) = db_users (snd (import_users set_pw d p))"
    using import_users_again [OF assms(1) st start] by simp
  then show ?thesis
    by (simp add: user_sync_users)
qed

text \<open>
  On an empty store, with pairwise distinct names. With a \<^verbatim>\<open>set_password\<close> that stores
  the same value at every call, a payload that brings \<open>carol\<close> with a plain password and
  \<open>alice\<close> with a pre-hashed one: both runs end with the same two documents, the plain
  password hashed. With a salted \<^verbatim>\<open>set_password\<close>, a payload without plain passwords:
  both runs end with the same two documents.
\<close>

theorem user_sync_idempotent_witness:
  "distinct (map su_username [carol_plain, alice_record])
   \<and> db_users (snd (user_sync example_hash route_ok empty_db [carol_plain, alice_record]))
       = [\<lparr>username = ''carol'', password = Some ''hashed:secret'', role_assignments = [glob_admin]\<rparr>,
          \<lparr>username = ''alice'', password = Some ''h2'', role_assignments = [glob_admin]\<rparr>]
   \<and> db_users (snd (user_sync example_hash route_ok
         (snd (user_sync example_hash route_ok empty_db [carol_plain, alice_record]))
         [carol_plain, alice_record]))
       = [\<lparr>username = ''carol'', password = Some ''hashed:secret'', role_assignments = [glob_admin]\<rparr>,
          \<lparr>username = ''alice'', password = Some ''h2'', role_assignments = [glob_admin]\<rparr>]
   \<and> db_users (snd (user_sync salted_hash route_ok empty_db [alice_record, bob_roles_only]))
       = [\<lparr>username = ''alice'', password = Some ''h2'', role_assignments = [glob_admin]\<rparr>,
          \<lparr>username = ''bob'', password = None, role_assignments = [glob_admin]\<rparr>]
   \<and> db_users (snd (user_sync salted_hash route_ok
         (snd (user_sync salted_hash route_ok empty_db [alice_record, bob_roles_only]))
         [alice_record, bob_roles_only]))
       = [\<lparr>username = ''alice'', password = Some ''h2'', role_assignments = [glob_admin]\<rparr>,
          \<lparr>username = ''bob'', password = None, role_assignments = [glob_admin]\<rparr>]"
proof -
  have d1: "distinct (map su_username [carol_plain, alice_record])"
    by (simp add: carol_plain_def alice_record_def)
  have s1: "\<forall>su \<in> set [carol_plain, alice_record]. \<forall>dat v.
      su_loaded su = Inr dat \<and> pd_password dat = Some v \<and> pd_hashed_password dat = None
        \<longrightarrow> (\<forall>j k. example_hash j v = example_hash k v)"
    by (simp add: example_hash_def)
  have once1: "db_users (snd (user_sync example_hash route_ok empty_db [carol_plain, alice_record]))
       = [\<lparr>username = ''carol'', password = Some ''hashed:secret'', role_assignments = [glob_admin]\<rparr>,
          \<lparr>username = ''alice'', password = Some ''h2'', role_assignments = [glob_admin]\<rparr>]"
    by (simp add: user_sync_users import_user_def update_user_def publish_user_updated_def
        objects_get_def Let_def carol_plain_def alice_record_def empty_db_def example_hash_def)
  have d2: "distinct (map su_username [alice_record, bob_roles_only])"
    by (simp add: alice_record_def bob_roles_only_def)
  have s2: "\<forall>su \<in> set [alice_record, bob_roles_only]. \<forall>dat v.
      su_loaded su = Inr dat \<and> pd_password dat = Some v \<and> pd_hashed_password dat = None
        \<longrightarrow> (\<forall>j k. salted_hash j v = salted_hash k v)"
    by (auto simp: alice_record_def bob_roles_only_def)
  have once2: "db_users (snd (user_sync salted_hash route_ok empty_db [alice_record, bob_roles_only]))
       = [\<lparr>username = ''alice'', password = Some ''h2'', role_assignments = [glob_admin]\<rparr>,
          \<lparr>username = ''bob'', password = None, role_assignments = [glob_admin]\<rparr>]"
    by (simp add: user_sync_users import_user_def update_user_def publish_user_updated_def
        objects_get_def Let_def alice_record_def bob_roles_only_def empty_db_def)
  show ?thesis
    using user_sync_idempotent [OF d1 s1, of route_ok empty_db]
      user_sync_idempotent [OF d2 s2, of route_ok empty_db] d1 once1 once2
    by simp
qed

text \<open>
  The condition on \<^verbatim>\<open>set_password\<close> is needed: with a salted one, the plain password of
  \<open>carol\<close> is hashed anew by the second application and the stored document changes.
\<close>

lemma user_sync_salted_example:
  "db_users (snd (user_sync salted_hash route_ok empty_db [carol_plain]))
     = [\<lparr>username = ''carol'', password = Some '':secret'', role_assignments = [glob_admin]\<rparr>]
   \<and> db_users (snd (user_sync salted_hash route_ok
        (snd (user_sync salted_hash route_ok empty_db [carol_plain])) [carol_plain]))
     = [\<lparr>username = ''carol'', password = Some ''s:secret'', role_assignments = [glob_admin]\<rparr>]"
proof -
  have one: "import_users salted_hash empty_db [carol_plain]
      = (None, empty_db\<lparr>db_users := [\<lparr>username = ''carol'', password = Some '':secret'',
                                       role_assignments = [glob_admin]\<rparr>],
                       db_published := [\<lparr>username = ''carol'', password = Some '':secret'',
                                          role_assignments = [glob_admin]\<rparr>],
                       db_set_password_calls := 1\<rparr>)"
    by (simp add: import_user_def update_user_def publish_user_updated_def
        objects_get_def Let_def carol_plain_def empty_db_def salted_hash_def)
  have calls: "db_set_password_calls (snd (user_sync salted_hash route_ok empty_db [carol_plain])) = 1"
    using one by (simp add: user_sync_def initiate_user_sync_def Let_def empty_db_def)
  have users: "db_users (snd (user_sync salted_hash route_ok empty_db [carol_plain]))
     = [\<lparr>username = ''carol'', password = Some '':secret'', role_assignments = [glob_admin]\<rparr>]"
    using one by (simp add: user_sync_users)
  have again: "db_users (snd (import_users salted_hash d [carol_plain]))
     = [\<lparr>username = ''carol'', password = Some ''s:secret'', role_assignments = [glob_admin]\<rparr>]"
    if "db_users d = [\<lparr>username = ''carol'', password = Some '':secret'',
                       role_assignments = [glob_admin]\<rparr>]"
      and "db_set_password_calls d = 1" for d
    using that
    by (simp add: import_user_def update_user_def publish_user_updated_def
        objects_get_def Let_def carol_plain_def salted_hash_def)
  have "db_users (snd (import_users salted_hash
          (snd (user_sync salted_hash route_ok empty_db [carol_plain])) [carol_plain]))
     = [\<lparr>username = ''carol'', password = Some ''s:secret'', role_assignments = [glob_admin]\<rparr>]"
    using users calls by (rule again)
  then show ?thesis
    using users by (simp add: user_sync_users)
qed

text \<open>
  C3 as stated fails for a payload that names one user twice. On an empty store the
  first record of \<open>bob\<close> (pre-hashed password, no role assignments) is skipped in the first
  run, since \<open>bob\<close> does not exist yet, and applied in the second, where he does: the
  stored password differs between one and two applications. No plain password is involved.
\<close>

theorem user_sync_twice_counterexample:
  "db_users (snd (user_sync example_hash route_ok empty_db [bob_prehashed_no_roles, bob_roles_only]))
     = [\<lparr>username = ''bob'', password = None, role_assignments = [glob_admin]\<rparr>]
   \<and> db_users (snd (user_sync example_hash route_ok
        (snd (user_sync example_hash route_ok empty_db [bob_prehashed_no_roles, bob_roles_only]))
        [bob_prehashed_no_roles, bob_roles_only]))
     = [\<lparr>username = ''bob'', password = Some ''h1'', role_assignments = [glob_admin]\<rparr>]"
  by (simp add: user_sync_users import_user_def update_user_def publish_user_updated_def
        objects_get_def Let_def bob_prehashed_no_roles_def bob_roles_only_def empty_db_def)

subsection \<open>Update, create or skip\<close>

text \<open>
  C4 (as amended). For every serialized user of a \<^verbatim>\<open>user_sync\<close> import that the
  loop reaches (the import of the records before it has not ended in an exception), that has
  a \<^verbatim>\<open>"username"\<close> and that the schema loads, whatever records follow it:
  if a \<^verbatim>\<open>User\<close> of that name is stored, the stored document becomes the one
  \<^verbatim>\<open>update_user\<close> computes from it, no document is added, a non-empty
  \<^verbatim>\<open>hashed_password\<close> of the data is the stored password as it is
  (\<^verbatim>\<open>set_password\<close> is not applied to it), and the role assignments of the data are
  the stored ones; if none is stored and the role assignments of the data are non-empty, one
  document is added at the end of the collection for that name, with those role assignments and, if the data has a
  non-empty \<^verbatim>\<open>hashed_password\<close>, that password; if none is stored and the role
  assignments are empty, nothing is written for the record. In each case the documents of
  the other names stay as they are and the import goes on with the records that follow.
\<close>

theorem user_sync_record_cases:
  assumes pre: "import_users set_pw d pre = (None, d1)"
    and n: "su_username su = Some n" and dat: "su_loaded su = Inr dat"
  shows "(\<forall>usr. objects_get (db_users d1) n = Some usr \<longrightarrow>
            (\<exists>d2 u. user_sync set_pw route d (pre @ su # post) = user_sync set_pw route d2 post
               \<and> (u, d2) = update_user set_pw d1 usr dat
               \<and> db_users d2 = save u (db_users d1)
               \<and> objects_get (db_users d2) n = Some u
               \<and> (\<forall>m. m \<noteq> n \<longrightarrow> objects_get (db_users d2) m = objects_get (db_users d1) m)
               \<and> length (db_users d2) = length (db_users d1)
               \<and> (\<forall>hp. pd_hashed_password dat = Some hp \<and> hp \<noteq> [] \<longrightarrow> password u = Some hp)
               \<and> (\<forall>ras. pd_role_assignments dat = Some ras \<longrightarrow> role_assignments u = ras)))
       \<and> (\<forall>ras. objects_get (db_users d1) n = None \<and> pd_role_assignments dat = Some ras \<and> ras \<noteq> [] \<longrightarrow>
            (\<exists>d2 u. user_sync set_pw route d (pre @ su # post) = user_sync set_pw route d2 post
               \<and> db_users d2 = db_users d1 @ [u]
               \<and> objects_get (db_users d2) n = Some u
               \<and> (\<forall>m. m \<noteq> n \<longrightarrow> objects_get (db_users d2) m = objects_get (db_users d1) m)
               \<and> length (db_users d2) = Suc (length (db_users d1))
               \<and> username u = n
               \<and> role_assignments u = ras
               \<and> (\<forall>hp. pd_hashed_password dat = Some hp \<and> hp \<noteq> [] \<longrightarrow> password u = Some hp)))
       \<and> (objects_get (db_users d1) n = None \<and> pd_role_assignments dat = Some [] \<longrightarrow>
            user_sync set_pw route d (pre @ su # post) = user_sync set_pw route d1 post)"
proof (intro conjI allI impI)
  fix usr
  assume found: "objects_get (db_users d1) n = Some usr"
  have un: "username usr = n" using found by (rule objects_get_username)
  let ?u = "updated set_pw (db_set_password_calls d1) usr dat"
  let ?d2 = "snd (update_user set_pw d1 usr dat)"
  have run: "import_user set_pw d1 su = Inr ?d2"
    using n dat found by (simp add: import_user_def)
  have whole: "user_sync set_pw route d (pre @ su # post) = user_sync set_pw route ?d2 post"
    using user_sync_append [OF pre run] by simp
  have pair: "(?u, ?d2) = update_user set_pw d1 usr dat"
    by (simp add: update_user_fst [symmetric])
  have users: "db_users ?d2 = save ?u (db_users d1)"
    by (rule update_user_users)
  have stored: "objects_get (db_users ?d2) n = Some ?u"
    using un by (simp add: users find_save_same updated_username)
  have others: "\<forall>m. m \<noteq> n \<longrightarrow> objects_get (db_users ?d2) m = objects_get (db_users d1) m"
    using un by (simp add: users find_save_other updated_username)
  have len: "length (db_users ?d2) = length (db_users d1)"
    using found un by (simp add: users length_save_present [of _ _ usr] updated_username)
  have hashed: "\<forall>hp. pd_hashed_password dat = Some hp \<and> hp \<noteq> [] \<longrightarrow> password ?u = Some hp"
    by (simp add: updated_hashed)
  have roles: "\<forall>ras. pd_role_assignments dat = Some ras \<longrightarrow> role_assignments ?u = ras"
    by (simp add: updated_roles)
  show "\<exists>d2 u. user_sync set_pw route d (pre @ su # post) = user_sync set_pw route d2 post
               \<and> (u, d2) = update_user set_pw d1 usr dat
               \<and> db_users d2 = save u (db_users d1)
               \<and> objects_get (db_users d2) n = Some u
               \<and> (\<forall>m. m \<noteq> n \<longrightarrow> objects_get (db_users d2) m = objects_get (db_users d1) m)
               \<and> length (db_users d2) = length (db_users d1)
               \<and> (\<forall>hp. pd_hashed_password dat = Some hp \<and> hp \<noteq> [] \<longrightarrow> password u = Some hp)
               \<and> (\<forall>ras. pd_role_assignments dat = Some ras \<longrightarrow> role_assignments u = ras)"
    using whole pair users stored others len hashed roles by blast
next
  fix ras
  assume a: "objects_get (db_users d1) n = None \<and> pd_role_assignments dat = Some ras \<and> ras \<noteq> []"
  let ?new = "\<lparr>username = n, password = None, role_assignments = []\<rparr>"
  let ?d0 = "d1\<lparr>db_users := save ?new (db_users d1)\<rparr>"
  let ?u = "updated set_pw (db_set_password_calls d1) ?new dat"
  let ?d2 = "snd (update_user set_pw ?d0 ?new dat)"
  have run: "import_user set_pw d1 su = Inr ?d2"
    using n dat a by (simp add: import_user_def Let_def)
  have whole: "user_sync set_pw route d (pre @ su # post) = user_sync set_pw route ?d2 post"
    using user_sync_append [OF pre run] by simp
  have users: "db_users ?d2 = save ?u (save ?new (db_users d1))"
    by (simp add: update_user_users)
  have stored: "objects_get (db_users ?d2) n = Some ?u"
    by (simp add: users find_save_same updated_username)
  have "save ?new (db_users d1) = db_users d1 @ [?new]"
    using a by (simp add: save_absent)
  moreover have "save ?u (db_users d1 @ [?new]) = db_users d1 @ [?u]"
    using a by (simp add: save_last updated_username)
  ultimately have appended: "db_users ?d2 = db_users d1 @ [?u]"
    using users by simp
  have others: "\<forall>m. m \<noteq> n \<longrightarrow> objects_get (db_users ?d2) m = objects_get (db_users d1) m"
    by (simp add: users find_save_other updated_username)
  have l1: "length (save ?new (db_users d1)) = Suc (length (db_users d1))"
    using a by (simp add: length_save_absent)
  have "objects_get (save ?new (db_users d1)) (username ?u) = Some ?new"
    by (simp add: find_save_same updated_username)
  then have "length (save ?u (save ?new (db_users d1))) = length (save ?new (db_users d1))"
    by (rule length_save_present)
  then have len: "length (db_users ?d2) = Suc (length (db_users d1))"
    using l1 users by simp
  have uname: "username ?u = n"
    by (simp add: updated_username)
  have roles: "role_assignments ?u = ras"
    using a by (simp add: updated_roles)
  have hashed: "\<forall>hp. pd_hashed_password dat = Some hp \<and> hp \<noteq> [] \<longrightarrow> password ?u = Some hp"
    by (simp add: updated_hashed)
  show "\<exists>d2 u. user_sync set_pw route d (pre @ su # post) = user_sync set_pw route d2 post
               \<and> db_users d2 = db_users d1 @ [u]
               \<and> objects_get (db_users d2) n = Some u
               \<and> (\<forall>m. m \<noteq> n \<longrightarrow> objects_get (db_users d2) m = objects_get (db_users d1) m)
               \<and> length (db_users d2) = Suc (length (db_users d1))
               \<and> username u = n
               \<and> role_assignments u = ras
               \<and> (\<forall>hp. pd_hashed_password dat = Some hp \<and> hp \<noteq> [] \<longrightarrow> password u = Some hp)"
    using whole appended stored others len uname roles hashed by blast
next
  assume "objects_get (db_users d1) n = None \<and> pd_role_assignments dat = Some []"
  then have "import_user set_pw d1 su = Inr d1"
    using n dat by (simp add: import_user_def)
  then show "user_sync set_pw route d (pre @ su # post) = user_sync set_pw route d1 post"
    using user_sync_append [OF pre] by simp
qed

text \<open>
  One import into a store that holds \<open>alice\<close> only: \<open>alice\<close> is updated to the pre-hashed
  password, \<open>bob\<close> without role assignments is skipped, \<open>bob\<close> with a role assignment is
  created.
\<close>

theorem user_sync_record_cases_witness:
  "import_users example_hash db_with_alice [] = (None, db_with_alice)
   \<and> su_username alice_record = Some ''alice''
   \<and> objects_get (db_users db_with_alice) ''alice''
       = Some \<lparr>username = ''alice'', password = Some ''old'', role_assignments = []\<rparr>
   \<and> db_users (snd (user_sync example_hash route_ok db_with_alice
                       [alice_record, bob_no_roles, bob_roles_only]))
       = [\<lparr>username = ''alice'', password = Some ''h2'', role_assignments = [glob_admin]\<rparr>,
          \<lparr>username = ''bob'', password = None, role_assignments = [glob_admin]\<rparr>]"
proof -
  let ?alice = "\<lparr>username = ''alice'', password = Some ''h2'', role_assignments = [glob_admin]\<rparr>"
  let ?dat_a = "\<lparr>pd_password = None, pd_hashed_password = Some ''h2'',
                 pd_role_assignments = Some [glob_admin]\<rparr>"
  let ?dat_b = "\<lparr>pd_password = None, pd_hashed_password = None,
                 pd_role_assignments = Some [glob_admin]\<rparr>"
  let ?dat_c = "\<lparr>pd_password = Some ''secret'', pd_hashed_password = None,
                 pd_role_assignments = Some []\<rparr>"
  let ?d1 = "db_with_alice\<lparr>db_users := [?alice], db_published := [?alice]\<rparr>"
  have p0: "import_users example_hash db_with_alice [] = (None, db_with_alice)"
    by simp
  have a1: "su_username alice_record = Some ''alice''"
    and a2: "su_loaded alice_record = Inr ?dat_a"
    by (simp_all add: alice_record_def)
  have a3: "objects_get (db_users db_with_alice) ''alice''
      = Some \<lparr>username = ''alice'', password = Some ''old'', role_assignments = []\<rparr>"
    by (simp add: db_with_alice_def empty_db_def objects_get_def)
  have upd: "update_user example_hash db_with_alice
               \<lparr>username = ''alice'', password = Some ''old'', role_assignments = []\<rparr> ?dat_a
             = (?alice, ?d1)"
    by (simp add: update_user_def publish_user_updated_def Let_def db_with_alice_def empty_db_def)
  have step1: "user_sync example_hash route_ok db_with_alice ([] @ alice_record # [bob_no_roles, bob_roles_only])
      = user_sync example_hash route_ok ?d1 [bob_no_roles, bob_roles_only]"
    using user_sync_record_cases [OF p0 a1 a2, of route_ok "[bob_no_roles, bob_roles_only]"] a3 upd
    by auto
  have c1: "su_username bob_no_roles = Some ''bob''"
    and c2: "su_loaded bob_no_roles = Inr ?dat_c"
    by (simp_all add: bob_no_roles_def)
  have c3: "objects_get (db_users ?d1) ''bob'' = None"
    by (simp add: objects_get_def)
  have p1: "import_users example_hash ?d1 [] = (None, ?d1)"
    by simp
  have step2: "user_sync example_hash route_ok ?d1 ([] @ bob_no_roles # [bob_roles_only])
      = user_sync example_hash route_ok ?d1 [bob_roles_only]"
    using user_sync_record_cases [OF p1 c1 c2, of route_ok "[bob_roles_only]"] c3
    by simp
  have b1: "su_username bob_roles_only = Some ''bob''"
    and b2: "su_loaded bob_roles_only = Inr ?dat_b"
    by (simp_all add: bob_roles_only_def)
  obtain d2 u where
    step3: "user_sync example_hash route_ok ?d1 ([] @ bob_roles_only # [])
              = user_sync example_hash route_ok d2 []"
    and bob: "objects_get (db_users d2) ''bob'' = Some u" "username u = ''bob''"
      "role_assignments u = [glob_admin]"
    and len: "length (db_users d2) = Suc (length (db_users ?d1))"
    and rest: "\<forall>m. m \<noteq> ''bob'' \<longrightarrow> objects_get (db_users d2) m = objects_get (db_users ?d1) m"
    using user_sync_record_cases [OF p1 b1 b2, of route_ok "[]"] c3
    by auto
  have last: "db_users (snd (user_sync example_hash route_ok ?d1 [bob_roles_only]))
      = [?alice, \<lparr>username = ''bob'', password = None, role_assignments = [glob_admin]\<rparr>]"
    by (simp add: user_sync_users import_user_def update_user_def publish_user_updated_def
        Let_def bob_roles_only_def objects_get_def)
  have "db_users (snd (user_sync example_hash route_ok db_with_alice
                       [alice_record, bob_no_roles, bob_roles_only]))
       = [?alice, \<lparr>username = ''bob'', password = None, role_assignments = [glob_admin]\<rparr>]"
    using step1 step2 last by simp
  then show ?thesis
    using p0 a1 a3 by simp
qed

text \<open>
  An empty \<^verbatim>\<open>hashed_password\<close> does not override a \<^verbatim>\<open>password\<close> of the same data:
  \<^verbatim>\<open>hashed_password is None\<close> is false, so the plain password is assigned as it is, and
  \<^verbatim>\<open>if hashed_password:\<close> is false too, so it stays.
\<close>

lemma update_user_empty_hash_example:
  "db_users (snd (user_sync example_hash route_ok db_with_alice [alice_empty_hash]))
     = [\<lparr>username = ''alice'', password = Some ''secret'', role_assignments = [glob_admin]\<rparr>]"
  by (simp add: user_sync_users import_user_def update_user_def publish_user_updated_def
        Let_def alice_empty_hash_def db_with_alice_def empty_db_def objects_get_def)

text \<open>
  C4 as stated fails for records of an import that the loop does not get to apply. The
  record of \<open>dave\<close>, who is not stored, has no \<^verbatim>\<open>role_assignments\<close> key: the
  \<^verbatim>\<open>KeyError\<close> of \<^verbatim>\<open>updated_user_data["role_assignments"]\<close> is not caught and
  ends the import, so \<open>alice\<close>, whose record follows with a role assignment and alone would
  create her, is never created. And \<open>alice\<close>, stored, is not updated by a record that the
  schema rejects: the \<^verbatim>\<open>ValidationError\<close> is logged and the document stays.
\<close>

theorem user_sync_record_counterexample:
  "user_sync example_hash route_ok empty_db [record_without_role_assignments, alice_record]
     = (Some (KeyError ''role_assignments''), empty_db)
   \<and> db_users (snd (user_sync example_hash route_ok empty_db [alice_record]))
     = [\<lparr>username = ''alice'', password = Some ''h2'', role_assignments = [glob_admin]\<rparr>]
   \<and> db_users (snd (user_sync example_hash route_ok db_with_alice [alice_rejected]))
     = [\<lparr>username = ''alice'', password = Some ''old'', role_assignments = []\<rparr>]"
  by (simp add: user_sync_def initiate_user_sync_def import_user_def update_user_def
        publish_user_updated_def Let_def alice_record_def record_without_role_assignments_def
        alice_rejected_def db_with_alice_def empty_db_def objects_get_def)

subsection \<open>Errors of single records\<close>

lemma import_user_invalid:
  "su_username su = Some n \<Longrightarrow> su_loaded su = Inl exc \<Longrightarrow>
   import_user set_pw d su =
     Inr (d\<lparr>db_logged := db_logged d @ [''Failed to import user '' @ n @ '' due to error: '' @ exc]\<rparr>)"
  by (simp add: import_user_def)

lemma import_user_ok_cong:
  assumes ok: "import_user set_pw d su = Inr d1" and same: "db_users d2 = db_users d"
    and calls: "db_set_password_calls d2 = db_set_password_calls d"
  shows "\<exists>d3. import_user set_pw d2 su = Inr d3 \<and> db_users d3 = db_users d1
           \<and> db_set_password_calls d3 = db_set_password_calls d1"
proof (cases "su_username su")
  case None
  then show ?thesis using ok by (simp add: import_user_def)
next
  case (Some n)
  note n = this
  show ?thesis
  proof (cases "su_loaded su")
    case (Inl exc)
    then show ?thesis using ok n same calls by (auto simp: import_user_def)
  next
    case (Inr dat)
    show ?thesis
    proof (cases "objects_get (db_users d) n")
      case (Some usr)
      then show ?thesis using ok n Inr same calls
        by (auto simp: import_user_def update_user_users update_user_calls)
    next
      case None
      show ?thesis
      proof (cases "pd_role_assignments dat")
        case None
        then show ?thesis using ok n Inr \<open>objects_get (db_users d) n = None\<close>
          by (simp add: import_user_def)
      next
        case (Some ras)
        then show ?thesis using ok n Inr same calls \<open>objects_get (db_users d) n = None\<close>
          by (cases ras) (auto simp: import_user_def update_user_users update_user_calls Let_def)
      qed
    qed
  qed
qed

lemma import_users_cong:
  "db_users d2 = db_users d \<Longrightarrow> db_set_password_calls d2 = db_set_password_calls d \<Longrightarrow>
   fst (import_users set_pw d2 p) = fst (import_users set_pw d p)
   \<and> db_users (snd (import_users set_pw d2 p)) = db_users (snd (import_users set_pw d p))"
proof (induction p arbitrary: d d2)
  case Nil
  then show ?case by simp
next
  case (Cons su rest)
  show ?case
  proof (cases "import_user set_pw d su")
    case (Inl e)
    then have "import_user set_pw d2 su = Inl e"
      using Cons.prems(1) by (rule import_user_error_cong)
    then show ?thesis using Inl Cons.prems by simp
  next
    case (Inr d1)
    then obtain d3 where d3: "import_user set_pw d2 su = Inr d3" "db_users d3 = db_users d1"
        "db_set_password_calls d3 = db_set_password_calls d1"
      using import_user_ok_cong [OF Inr Cons.prems] by blast
    have "fst (import_users set_pw d3 rest) = fst (import_users set_pw d1 rest)
       \<and> db_users (snd (import_users set_pw d3 rest)) = db_users (snd (import_users set_pw d1 rest))"
      using d3(2,3) by (rule Cons.IH)
    then show ?thesis using Inr d3(1) by simp
  qed
qed

text \<open>
  C6 (as amended). A record that has a \<^verbatim>\<open>"username"\<close> and that the schema rejects
  with a \<^verbatim>\<open>ValidationError\<close> is logged and skipped wherever it stands in the list:
  the records before it are imported, one line is logged, and the import goes on with
  the records after it. The outcome (whether an exception leaves the loop, and the stored
  users) is that of the list without the record.
\<close>

theorem import_users_skips_invalid:
  assumes n: "su_username su = Some n" and bad: "su_loaded su = Inl exc"
  shows "import_users set_pw d (pre @ su # post) =
           (case import_users set_pw d pre of
              (Some e, d1) \<Rightarrow> (Some e, d1)
            | (None, d1) \<Rightarrow>
                import_users set_pw
                  (d1\<lparr>db_logged := db_logged d1
                        @ [''Failed to import user '' @ n @ '' due to error: '' @ exc]\<rparr>) post)
         \<and> fst (import_users set_pw d (pre @ su # post)) = fst (import_users set_pw d (pre @ post))
         \<and> db_users (snd (import_users set_pw d (pre @ su # post)))
             = db_users (snd (import_users set_pw d (pre @ post)))"
proof (cases "import_users set_pw d pre")
  case (Pair e d1)
  show ?thesis
  proof (cases e)
    case (Some err)
    then show ?thesis using Pair by (simp add: import_users_append)
  next
    case None
    let ?d2 = "d1\<lparr>db_logged := db_logged d1
                        @ [''Failed to import user '' @ n @ '' due to error: '' @ exc]\<rparr>"
    have "db_users ?d2 = db_users d1" and "db_set_password_calls ?d2 = db_set_password_calls d1"
      by simp_all
    then have "fst (import_users set_pw ?d2 post) = fst (import_users set_pw d1 post)
       \<and> db_users (snd (import_users set_pw ?d2 post)) = db_users (snd (import_users set_pw d1 post))"
      by (rule import_users_cong)
    then show ?thesis
      using Pair None by (simp add: import_users_append import_user_invalid [OF n bad])
  qed
qed

text \<open>
  A rejected record between two valid ones: both valid records are imported and one line is
  logged.
\<close>

theorem import_users_skips_invalid_witness:
  "su_username invalid_record = Some ''carol''
   \<and> su_loaded invalid_record = Inl ''Not a valid list.''
   \<and> fst (import_users example_hash empty_db [alice_record, invalid_record, bob_roles_only]) = None
   \<and> db_users (snd (import_users example_hash empty_db [alice_record, invalid_record, bob_roles_only]))
       = [\<lparr>username = ''alice'', password = Some ''h2'', role_assignments = [glob_admin]\<rparr>,
          \<lparr>username = ''bob'', password = None, role_assignments = [glob_admin]\<rparr>]
   \<and> db_logged (snd (import_users example_hash empty_db [alice_record, invalid_record, bob_roles_only]))
       = [''Failed to import user carol due to error: Not a valid list.'']"
proof -
  have n: "su_username invalid_record = Some ''carol''"
    and bad: "su_loaded invalid_record = Inl ''Not a valid list.''"
    by (simp_all add: invalid_record_def)
  have pre: "import_users example_hash empty_db [alice_record] =
      (None, empty_db\<lparr>db_users := [\<lparr>username = ''alice'', password = Some ''h2'', role_assignments = [glob_admin]\<rparr>],
                      db_published := [\<lparr>username = ''alice'', password = Some ''h2'', role_assignments = [glob_admin]\<rparr>]\<rparr>)"
    by (simp add: import_user_def update_user_def publish_user_updated_def Let_def
        alice_record_def empty_db_def objects_get_def)
  have split: "[alice_record, invalid_record, bob_roles_only] = [alice_record] @ invalid_record # [bob_roles_only]"
    by simp
  show ?thesis
    using import_users_skips_invalid [OF n bad, of example_hash empty_db "[alice_record]" "[bob_roles_only]"]
    unfolding split [symmetric] pre
    using n bad
    by (simp add: import_user_def update_user_def publish_user_updated_def Let_def
        bob_roles_only_def empty_db_def objects_get_def)
qed

text \<open>
  C6 as stated fails for a record without \<^verbatim>\<open>"username"\<close>: the lookup
  \<^verbatim>\<open>serialized_user["username"]\<close> stands before the \<^verbatim>\<open>try\<close>, its
  \<^verbatim>\<open>KeyError\<close> leaves the loop, and the valid record behind it, which alone would
  create \<open>alice\<close>, is never reached.
\<close>

theorem import_users_keyerror_counterexample:
  "import_users example_hash empty_db [record_without_username, alice_record]
     = (Some (KeyError ''username''), empty_db)
   \<and> db_users (snd (import_users example_hash empty_db [alice_record]))
     = [\<lparr>username = ''alice'', password = Some ''h2'', role_assignments = [glob_admin]\<rparr>]"
  by (simp add: import_user_def update_user_def publish_user_updated_def Let_def
        alice_record_def record_without_username_def empty_db_def objects_get_def)

section \<open>The listener\<close>

lemmas example_stomp_defs = example_env_def failing_send_env_def example_parse_def
  example_route_def example_process_def example_append_def reply_to_x_def
  listener_with_default_def listener_without_default_def listener_down_def

lemmas stomp_defs = on_message_def on_message_try_def send_message_def send_error_msg_def
  conn_send_def is_connected_def pop_wait_timeout_def Let_def















text \<open>
  C9. When the message parses and routing returns without an exception a result that is
  false in a condition (\<^verbatim>\<open>None\<close>, \<^verbatim>\<open>False\<close>, an empty string or list), the handler
  ends without an exception and leaves the listener as it was: no call of \<^verbatim>\<open>send\<close> is
  made, whatever the request headers, \<open>reply-to\<close> included, and nothing is logged.
\<close>

theorem falsy_result_sends_nothing:
  assumes "env_parse_operation e message = Inr opn"
    and "env_route e (pop_wait_timeout opn) = Inr result"
    and "\<not> truthy result"
  shows "on_message e self hdrs message = (None, self)"
  using assms by (simp add: on_message_def on_message_try_def Let_def)

text \<open>A request with \<open>reply-to\<close> whose routing returns \<^verbatim>\<open>None\<close>.\<close>

theorem falsy_result_sends_nothing_witness:
  "env_parse_operation example_env ''QUIET''
     = Inr \<lparr>operation_type = ''QUIET'', target_garden_name = None,
            kwargs = [(''wait_timeout'', KInt 5)]\<rparr>
   \<and> env_route example_env (pop_wait_timeout \<lparr>operation_type = ''QUIET'', target_garden_name = None,
            kwargs = [(''wait_timeout'', KInt 5)]\<rparr>) = Inr PyNone
   \<and> \<not> truthy PyNone
   \<and> map_of reply_to_x ''reply-to'' = Some ''X''
   \<and> on_message example_env listener_with_default reply_to_x ''QUIET'' = (None, listener_with_default)"
proof -
  have p: "env_parse_operation example_env ''QUIET''
     = Inr \<lparr>operation_type = ''QUIET'', target_garden_name = None,
            kwargs = [(''wait_timeout'', KInt 5)]\<rparr>"
    by (simp add: example_env_def example_parse_def)
  have r: "env_route example_env (pop_wait_timeout \<lparr>operation_type = ''QUIET'', target_garden_name = None,
            kwargs = [(''wait_timeout'', KInt 5)]\<rparr>) = Inr PyNone"
    by (simp add: example_env_def example_route_def pop_wait_timeout_def)
  have t: "\<not> truthy PyNone" by simp
  show ?thesis
    using falsy_result_sends_nothing [OF p r t, of listener_with_default reply_to_x] p r
    by (simp add: reply_to_x_def)
qed




subsection \<open>Exceptions in the handler\<close>



text \<open>
  With a library whose \<^verbatim>\<open>send\<close> raises, the exception of the error reply leaves
  \<^verbatim>\<open>on_message\<close>, and the warning is not logged.
\<close>

lemma on_message_raises_example:
  "on_message failing_send_env listener_with_default reply_to_x ''FAIL''
     = (Some (OtherError ''socket closed''),
        listener_with_default
          \<lparr>l_conn := \<lparr>connected = True,
                       calls = [Send \<lparr>body = ''routing failed'',
                                      frame_headers = [(''model_class'', ''error_message''),
                                                       (''reply-to'', ''X'')],
                                      destination = ''X''\<rparr>]\<rparr>\<rparr>)"
  by (simp add: stomp_defs example_stomp_defs)


section \<open>Connecting\<close>

lemma connect_not_attempted: "\<not> attempts self \<Longrightarrow> connect b self m g = (None, self)"
  by (cases "host_and_ports self")
     (auto simp: connect_def attempts_def split: list.splits prod.splits)

lemma connect_try_calls:
  "truthy_str (subscribe_destination self) \<Longrightarrow>
   calls (c_conn (snd (connect_try b self m))) = calls (c_conn self) @ attempt_calls b self"
  by (cases "subscribe_destination self"; cases m; cases b)
     (simp_all add: connect_try_def conn_connect_def conn_subscribe_def is_connected_def
        attempt_calls_def)

lemma connect_attempted:
  assumes "attempts self"
  shows "calls (c_conn (snd (connect b self m g))) = calls (c_conn self) @ attempt_calls b self"
proof -
  from assms obtain host port others where
    hp: "host_and_ports self = Some ((host, port) # others)"
    and ok: "truthy_str host" "truthy_int port" "truthy_str (subscribe_destination self)"
    by (auto simp: attempts_def split: option.splits list.splits prod.splits)
  have "calls (c_conn (snd (connect_try b self m))) = calls (c_conn self) @ attempt_calls b self"
    using ok(3) by (rule connect_try_calls)
  then show ?thesis
    using hp ok
    by (cases "connect_try b self m"; cases g)
       (auto simp: connect_def split: option.splits)
qed

text \<open>
  C8 (as amended). \<^verbatim>\<open>connect()\<close> attempts a broker connection if and only if the list of
  endpoints is non-empty, its first endpoint has a non-empty host and a non-zero port, and
  the subscribe destination is non-empty. An attempt is one \<^verbatim>\<open>connect\<close> call, followed
  by the subscription when the broker accepts. Otherwise, and so for every connection
  without a subscribe destination, \<^verbatim>\<open>connect()\<close> returns without touching the
  connection.
\<close>

theorem connect_attempt_iff:
  "calls (c_conn (snd (connect b self m g)))
     = calls (c_conn self) @ (if attempts self then attempt_calls b self else [])
   \<and> (attempts self \<longleftrightarrow>
        (\<exists>host port others. host_and_ports self = Some ((host, port) # others)
           \<and> truthy_str host \<and> truthy_int port \<and> truthy_str (subscribe_destination self)))
   \<and> (\<not> attempts self \<longrightarrow> connect b self m g = (None, self))
   \<and> (attempts self \<longrightarrow> attempt_calls b self \<noteq> []
         \<and> hd (attempt_calls b self) = Connect (c_username self) (c_password self))"
proof (intro conjI)
  show "calls (c_conn (snd (connect b self m g)))
     = calls (c_conn self) @ (if attempts self then attempt_calls b self else [])"
    by (simp add: connect_attempted connect_not_attempted)
  show "attempts self \<longleftrightarrow>
        (\<exists>host port others. host_and_ports self = Some ((host, port) # others)
           \<and> truthy_str host \<and> truthy_int port \<and> truthy_str (subscribe_destination self))"
    by (auto simp: attempts_def split: option.splits list.splits prod.splits)
  show "\<not> attempts self \<longrightarrow> connect b self m g = (None, self)"
    by (simp add: connect_not_attempted)
  show "attempts self \<longrightarrow> attempt_calls b self \<noteq> []
         \<and> hd (attempt_calls b self) = Connect (c_username self) (c_password self)"
    by (simp add: attempt_calls_def)
qed

text \<open>A subscribing connection and a broker that accepts: connect, then subscribe.\<close>

theorem connect_attempt_iff_witness:
  "attempts subscriber
   \<and> calls (c_conn (snd (connect True subscriber (Some ''connected'') (Some []))))
       = [Connect (Some ''bg'') (Some ''pw''), Subscribe ''operations'' (Some ''bg'')]
   \<and> calls (c_conn (snd (connect False subscriber (Some ''connected'') (Some []))))
       = [Connect (Some ''bg'') (Some ''pw'')]"
proof -
  have a: "attempts subscriber"
    by (simp add: attempts_def subscriber_def)
  show ?thesis
    using connect_attempt_iff [of True subscriber "Some ''connected''" "Some []"]
      connect_attempt_iff [of False subscriber "Some ''connected''" "Some []"] a
    by (simp add: attempt_calls_def subscriber_def)
qed

text \<open>
  C8 as stated fails for a connection used for publishing only: with valid endpoints and
  no subscribe destination, \<^verbatim>\<open>connect()\<close> makes no connection attempt, even with a broker
  that would accept.
\<close>

theorem publisher_never_connects_counterexample:
  "truthy_list (host_and_ports publisher)
   \<and> connect True publisher (Some ''connected'') (Some []) = (None, publisher)
   \<and> calls (c_conn (snd (connect True publisher (Some ''connected'') (Some [])))) = []"
  by (simp add: connect_def publisher_def)

section \<open>Patching a job\<close>










text \<open>
  An empty list of operations makes no backend call and binds no response: the handler ends
  in the \<^verbatim>\<open>UnboundLocalError\<close> of \<^verbatim>\<open>self.write(response)\<close>.
\<close>

lemma patch_empty_list_example:
  "patch (example_handler []) ''job1'' ''{}''
     = ([], Inl (UnboundLocalError ''local variable response referenced before assignment''))"
  by (simp add: patch_def example_handler_def)

end
